theory Spec2Isabelle
  imports
    Complex_Main
    "HOL-Library.AList"
    "HOL-Library.Char_ord"
    "HOL-Library.List_Lexorder"
    "HOL-Library.Multiset"
begin

section \<open>Error propagation in \<open>pages/4_Error_Analysis.py\<close>\<close>

text \<open>
  The page computes propagated uncertainties in two ways: a closed-form calculator for five
  basic operations (lines 242-329) and a "Complex Function" branch (lines 331-439) that
  parses a user expression with the symbolic library, keeps one value/uncertainty binding per
  free symbol in the session state, and combines the partial derivatives by root-sum-square.

  \<^item> A Python float is a real number in the float range, an infinity or a NaN. Overflow is
    modelled: \<open>**\<close> raises \<open>OverflowError\<close>, the other operations return an infinity. The
    rounding of each float operation is a parameter \<open>rnd\<close> of the model (the identity for
    exact arithmetic, \<open>round_double\<close> for IEEE doubles); underflow is part of the rounding.
  \<^item> The symbolic library is a parameter: its parser, its symbols, its differentiation and
    substitution, and the arithmetic of the values that a substitution returns (which need
    not be real numbers). So are the layout call \<open>st.columns\<close> and the widget
    \<open>st.number_input\<close>. Every general theorem below holds for all of them.
\<close>

subsection \<open>Exceptions\<close>

datatype exn =
    SympifyError
  | AttributeError
  | StreamlitAPIException
  | KeyError
  | TypeError
  | ValueError
  | ZeroDivisionError
  | OverflowError

text \<open>Sequencing of steps that may raise: the first exception ends the sequence.\<close>

fun and_then :: "exn + 'a \<Rightarrow> ('a \<Rightarrow> exn + 'b) \<Rightarrow> exn + 'b" where
  "and_then (Inl e) f = Inl e"
| "and_then (Inr x) f = f x"

subsection \<open>Python floats\<close>

datatype pyfloat = Fin real | PInf | NInf | NaN

definition float_max :: real where
  "float_max = 2 ^ 1024 - 2 ^ 971"

text \<open>The float that the rounded result \<open>r\<close> of \<open>+\<close>, \<open>-\<close>, \<open>*\<close> or \<open>/\<close> on finite floats
  becomes: beyond the largest float it is an infinity.\<close>

definition to_range :: "real \<Rightarrow> pyfloat" where
  "to_range r = (if float_max < r then PInf else if r < - float_max then NInf else Fin r)"

fun fneg :: "pyfloat \<Rightarrow> pyfloat" where
  "fneg (Fin x) = Fin (- x)"
| "fneg PInf = NInf"
| "fneg NInf = PInf"
| "fneg NaN = NaN"

fun fabs :: "pyfloat \<Rightarrow> pyfloat" where
  "fabs (Fin x) = Fin \<bar>x\<bar>"
| "fabs PInf = PInf"
| "fabs NInf = PInf"
| "fabs NaN = NaN"

fun fadd :: "(real \<Rightarrow> real) \<Rightarrow> pyfloat \<Rightarrow> pyfloat \<Rightarrow> pyfloat" where
  "fadd rnd (Fin x) (Fin y) = to_range (rnd (x + y))"
| "fadd rnd NaN y = NaN"
| "fadd rnd x NaN = NaN"
| "fadd rnd PInf NInf = NaN"
| "fadd rnd NInf PInf = NaN"
| "fadd rnd PInf y = PInf"
| "fadd rnd x PInf = PInf"
| "fadd rnd NInf y = NInf"
| "fadd rnd x NInf = NInf"

definition fsub :: "(real \<Rightarrow> real) \<Rightarrow> pyfloat \<Rightarrow> pyfloat \<Rightarrow> pyfloat" where
  "fsub rnd x y = fadd rnd x (fneg y)"

text \<open>The sign of an infinite product or quotient.\<close>

definition signed_inf :: "bool \<Rightarrow> pyfloat" where
  "signed_inf negative = (if negative then NInf else PInf)"

fun fmul :: "(real \<Rightarrow> real) \<Rightarrow> pyfloat \<Rightarrow> pyfloat \<Rightarrow> pyfloat" where
  "fmul rnd (Fin x) (Fin y) = to_range (rnd (x * y))"
| "fmul rnd NaN y = NaN"
| "fmul rnd x NaN = NaN"
| "fmul rnd (Fin x) PInf = (if x = 0 then NaN else signed_inf (x < 0))"
| "fmul rnd (Fin x) NInf = (if x = 0 then NaN else signed_inf (0 < x))"
| "fmul rnd PInf (Fin y) = (if y = 0 then NaN else signed_inf (y < 0))"
| "fmul rnd NInf (Fin y) = (if y = 0 then NaN else signed_inf (0 < y))"
| "fmul rnd PInf PInf = PInf"
| "fmul rnd NInf NInf = PInf"
| "fmul rnd PInf NInf = NInf"
| "fmul rnd NInf PInf = NInf"

text \<open>Float division raises \<open>ZeroDivisionError\<close> on a zero divisor, whatever the dividend.\<close>

fun fdiv :: "(real \<Rightarrow> real) \<Rightarrow> pyfloat \<Rightarrow> pyfloat \<Rightarrow> exn + pyfloat" where
  "fdiv rnd x (Fin y) =
     (if y = 0 then Inl ZeroDivisionError
      else case x of
             Fin a \<Rightarrow> Inr (to_range (rnd (a / y)))
           | PInf \<Rightarrow> Inr (signed_inf (y < 0))
           | NInf \<Rightarrow> Inr (signed_inf (0 < y))
           | NaN \<Rightarrow> Inr NaN)"
| "fdiv rnd (Fin a) PInf = Inr (Fin 0)"
| "fdiv rnd (Fin a) NInf = Inr (Fin 0)"
| "fdiv rnd x y = Inr NaN"

text \<open>\<open>math.sqrt\<close> raises \<open>ValueError\<close> on a negative argument.\<close>

fun math_sqrt :: "(real \<Rightarrow> real) \<Rightarrow> pyfloat \<Rightarrow> exn + pyfloat" where
  "math_sqrt rnd (Fin x) = (if x < 0 then Inl ValueError else Inr (Fin (rnd (sqrt x))))"
| "math_sqrt rnd PInf = Inr PInf"
| "math_sqrt rnd NInf = Inl ValueError"
| "math_sqrt rnd NaN = Inr NaN"

text \<open>\<open>x ** 2\<close> on a float: an overflow raises \<open>OverflowError\<close>.\<close>

fun float_square :: "(real \<Rightarrow> real) \<Rightarrow> pyfloat \<Rightarrow> exn + pyfloat" where
  "float_square rnd (Fin x) =
     (if float_max < rnd (x\<^sup>2) then Inl OverflowError else Inr (Fin (rnd (x\<^sup>2))))"
| "float_square rnd PInf = Inr PInf"
| "float_square rnd NInf = Inr PInf"
| "float_square rnd NaN = Inr NaN"

text \<open>A Python number: \<open>**\<close> on floats returns a \<open>complex\<close> for a negative base and a
  fractional exponent.\<close>

datatype pynum = PyFloat pyfloat | PyComplex complex

fun py_abs :: "(real \<Rightarrow> real) \<Rightarrow> pynum \<Rightarrow> pyfloat" where
  "py_abs rnd (PyFloat x) = fabs x"
| "py_abs rnd (PyComplex z) = Fin (rnd (cmod z))"

fun py_nonzero :: "pynum \<Rightarrow> bool" where
  "py_nonzero (PyFloat x) = (x \<noteq> Fin 0)"
| "py_nonzero (PyComplex z) = (z \<noteq> 0)"

text \<open>
  \<open>value_a ** power_n\<close> on finite floats: a zero base with a negative exponent raises
  \<open>ZeroDivisionError\<close>; \<open>0.0 ** 0.0\<close> is \<open>1.0\<close>; a negative base with an integral exponent
  gives a float, with any other exponent the principal complex power; a result beyond the
  float range raises \<open>OverflowError\<close>.
\<close>

definition in_float_range :: "real \<Rightarrow> exn + pynum" where
  "in_float_range r = (if float_max < \<bar>r\<bar> then Inl OverflowError else Inr (PyFloat (Fin r)))"

definition float_pow :: "(real \<Rightarrow> real) \<Rightarrow> real \<Rightarrow> real \<Rightarrow> exn + pynum" where
  "float_pow rnd a n =
     (if a = 0 \<and> n < 0 then Inl ZeroDivisionError
      else if 0 < a then in_float_range (rnd (a powr n))
      else if a = 0 then Inr (PyFloat (Fin (if n = 0 then 1 else 0)))
      else if n = of_int \<lfloor>n\<rfloor> then in_float_range (rnd (a powi \<lfloor>n\<rfloor>))
      else if float_max < rnd (\<bar>a\<bar> powr n) then Inl OverflowError
      else Inr (PyComplex (Complex (rnd (\<bar>a\<bar> powr n * cos (n * pi)))
                                   (rnd (\<bar>a\<bar> powr n * sin (n * pi))))))"

subsection \<open>The Basic Operations branch (lines 242-329)\<close>

datatype operation = Addition | Subtraction | Multiplication | Division | Power

text \<open>
  Lines 264 and 269, 277-280 and 292-295: the two closed forms, with their float operations
  in the order in which Python evaluates them.
\<close>

definition sqrt_sum_squares :: "(real \<Rightarrow> real) \<Rightarrow> pyfloat \<Rightarrow> pyfloat \<Rightarrow> exn + pyfloat" where
  "sqrt_sum_squares rnd x y =
     and_then (float_square rnd x) (\<lambda>x2.
     and_then (float_square rnd y) (\<lambda>y2.
       math_sqrt rnd (fadd rnd x2 y2)))"

definition relative_propagation ::
  "(real \<Rightarrow> real) \<Rightarrow> pyfloat \<Rightarrow> real \<Rightarrow> real \<Rightarrow> real \<Rightarrow> real \<Rightarrow> exn + pyfloat" where
  "relative_propagation rnd res value_a uncertainty_a value_b uncertainty_b =
     and_then (fdiv rnd (Fin uncertainty_a) (fabs (Fin value_a))) (\<lambda>rel_error_a.
     and_then (fdiv rnd (Fin uncertainty_b) (fabs (Fin value_b))) (\<lambda>rel_error_b.
     and_then (sqrt_sum_squares rnd rel_error_a rel_error_b) (\<lambda>rel_error_result.
       Inr (fmul rnd (fabs res) rel_error_result))))"

text \<open>
  Lines 262-316: \<open>result\<close> and \<open>propagated_error\<close> of the selected operation, each possibly
  \<open>None\<close>. \<open>Inl e\<close> is an exception raised on the way; the branch has no \<open>try\<close>, so it leaves
  the page script.
\<close>

definition basic_operations ::
  "(real \<Rightarrow> real) \<Rightarrow> operation \<Rightarrow> real \<Rightarrow> real \<Rightarrow> real \<Rightarrow> real \<Rightarrow> real \<Rightarrow>
   exn + (pynum option \<times> pyfloat option)" where
  "basic_operations rnd operation value_a uncertainty_a value_b uncertainty_b power_n =
     (case operation of
        Addition \<Rightarrow>
          (let res = fadd rnd (Fin value_a) (Fin value_b)
           in and_then (sqrt_sum_squares rnd (Fin uncertainty_a) (Fin uncertainty_b))
                (\<lambda>propagated. Inr (Some (PyFloat res), Some propagated)))
      | Subtraction \<Rightarrow>
          (let res = fsub rnd (Fin value_a) (Fin value_b)
           in and_then (sqrt_sum_squares rnd (Fin uncertainty_a) (Fin uncertainty_b))
                (\<lambda>propagated. Inr (Some (PyFloat res), Some propagated)))
      | Multiplication \<Rightarrow>
          (let res = fmul rnd (Fin value_a) (Fin value_b)
           in if value_a \<noteq> 0 \<and> value_b \<noteq> 0 then
                and_then
                  (relative_propagation rnd res value_a uncertainty_a value_b uncertainty_b)
                  (\<lambda>propagated. Inr (Some (PyFloat res), Some propagated))
              else Inr (Some (PyFloat res), None))
      | Division \<Rightarrow>
          (if value_b \<noteq> 0 then
             and_then (fdiv rnd (Fin value_a) (Fin value_b)) (\<lambda>res.
               if value_a \<noteq> 0 \<and> value_b \<noteq> 0 then
                 and_then
                   (relative_propagation rnd res value_a uncertainty_a value_b uncertainty_b)
                   (\<lambda>propagated. Inr (Some (PyFloat res), Some propagated))
               else Inr (Some (PyFloat res), None))
           else Inr (None, None))
      | Power \<Rightarrow>
          and_then (float_pow rnd value_a power_n) (\<lambda>res.
            if value_a \<noteq> 0 then
              and_then (fdiv rnd (Fin uncertainty_a) (fabs (Fin value_a))) (\<lambda>rel_error_a.
                (let rel_error_result = fmul rnd (fabs (Fin power_n)) rel_error_a
                 in Inr (Some res, Some (fmul rnd (py_abs rnd res) rel_error_result))))
            else Inr (Some res, None)))"

text \<open>What the branch shows after the button is pressed (lines 319-329): the result with
  its percentage error when the result is not zero, or the error message of line 329.\<close>

datatype basic_display =
    BasicResult pynum pyfloat "pyfloat option"
  | UnableToCalculate

definition basic_calculator ::
  "(real \<Rightarrow> real) \<Rightarrow> operation \<Rightarrow> real \<Rightarrow> real \<Rightarrow> real \<Rightarrow> real \<Rightarrow> real \<Rightarrow>
   exn + basic_display" where
  "basic_calculator rnd operation value_a uncertainty_a value_b uncertainty_b power_n =
     and_then
       (basic_operations rnd operation value_a uncertainty_a value_b uncertainty_b power_n)
       (\<lambda>(res, propagated).
          case (res, propagated) of
            (Some r, Some pe) \<Rightarrow>
              if py_nonzero r then
                and_then (fdiv rnd pe (py_abs rnd r))
                  (\<lambda>q. Inr (BasicResult r pe (Some (fmul rnd q (Fin 100)))))
              else Inr (BasicResult r pe None)
          | _ \<Rightarrow> Inr UnableToCalculate)"

subsection \<open>Bindings and their reconciliation (lines 351-358)\<close>

text \<open>One entry of \<open>st.session_state.error_variables\<close>:
  \<open>{"value": ..., "uncertainty": ...}\<close>. Both numbers come from a number input or are
  \<open>0.0\<close>, so they are finite floats.\<close>

record binding =
  b_value :: real
  b_uncertainty :: real

definition zero_binding :: binding where
  "zero_binding = \<lparr>b_value = 0, b_uncertainty = 0\<rparr>"

text \<open>A Python dict, in insertion order: \<open>AList.update\<close> overwrites an existing key in
  place and appends a new one, \<open>map_of\<close> looks a key up.\<close>

type_synonym store = "(string \<times> binding) list"

text \<open>
  \<^verbatim>\<open>
  if not st.session_state.error_variables:
      st.session_state.error_variables = {var.name: {"value": 0.0, "uncertainty": 0.0}
                                          for var in variables}
  for var in variables:
      if var.name not in st.session_state.error_variables:
          st.session_state.error_variables[var.name] = {"value": 0.0, "uncertainty": 0.0}
  \<close>
  The second argument lists \<open>var.name\<close> for the variables in order.
\<close>

definition fresh_store :: "string list \<Rightarrow> store" where
  "fresh_store variables = fold (\<lambda>v d. AList.update v zero_binding d) variables []"

definition add_missing :: "string \<Rightarrow> store \<Rightarrow> store" where
  "add_missing v d = (if map_of d v = None then AList.update v zero_binding d else d)"

definition reconcile :: "store \<Rightarrow> string list \<Rightarrow> store" where
  "reconcile ev variables =
     fold add_missing variables (if ev = [] then fresh_store variables else ev)"

subsection \<open>The symbolic library, the layout call and the widget, as parameters\<close>

text \<open>
  The code of the symbolic library is not part of the repository. The model takes as a
  record of functions what the page calls, over arbitrary types \<open>'e\<close> of parsed objects,
  \<open>'s\<close> of symbols and \<open>'v\<close> of the values that a substitution returns:
  \<^item> \<open>sympify(expression)\<close> returns an object or raises;
  \<^item> \<open>list(expr.free_symbols)\<close> returns the symbols in the order in which the set is
    iterated, or raises (an object that is no expression has no such attribute);
  \<^item> \<open>var.name\<close> is the name of a symbol;
  \<^item> \<open>diff(expr, var)\<close> and \<open>e.subs(subs_dict)\<close> return or raise;
  \<^item> line 401 multiplies a value by a float (\<open>v_mul\<close>), squares it (\<open>v_pow2\<close>) and adds it
    to the sum, which starts as the integer \<open>0\<close> (\<open>v_radd0\<close> for \<open>0 + v\<close>, \<open>v_add\<close> after);
  \<^item> \<open>float(v)\<close>, which \<open>math.sqrt\<close> also applies to its argument, returns a float or
    raises (\<open>v_float\<close>); \<open>v != 0\<close> is the library's comparison (\<open>v_ne0\<close>).
\<close>

record ('e, 's, 'v) sympy =
  sympify :: "string \<Rightarrow> exn + 'e"
  free_symbols :: "'e \<Rightarrow> exn + 's list"
  symbol_name :: "'s \<Rightarrow> string"
  diff :: "'e \<Rightarrow> 's \<Rightarrow> exn + 'e"
  subs :: "'e \<Rightarrow> (string \<times> real) list \<Rightarrow> exn + 'v"
  v_mul :: "'v \<Rightarrow> real \<Rightarrow> exn + 'v"
  v_pow2 :: "'v \<Rightarrow> exn + 'v"
  v_radd0 :: "'v \<Rightarrow> exn + 'v"
  v_add :: "'v \<Rightarrow> 'v \<Rightarrow> exn + 'v"
  v_float :: "'v \<Rightarrow> exn + pyfloat"
  v_ne0 :: "'v \<Rightarrow> bool"

subsection \<open>Parsing and the variable list (lines 345-346)\<close>

text \<open>\<^verbatim>\<open>expr = sympify(expression)
variables = sorted(list(expr.free_symbols), key=lambda x: x.name)\<close>\<close>

definition variables_of :: "('s \<Rightarrow> string) \<Rightarrow> 's list \<Rightarrow> 's list" where
  "variables_of name symbols = sort_key name symbols"

definition parse_variables :: "('e, 's, 'v) sympy \<Rightarrow> string \<Rightarrow> exn + ('e \<times> 's list)" where
  "parse_variables lib expression =
     and_then (sympify lib expression) (\<lambda>expr.
     and_then (free_symbols lib expr) (\<lambda>symbols.
       Inr (expr, variables_of (symbol_name lib) symbols)))"

subsection \<open>The input fields (lines 364-378)\<close>

text \<open>
  For each variable the two \<open>st.number_input\<close> widgets are created with the stored value and
  uncertainty as defaults, and what they return is written back to the store. The widget
  is a parameter: it maps its key and its default to the number it returns, or raises. The
  store reached when an exception leaves the loop is returned with it.
\<close>

fun populate_inputs ::
  "(string \<Rightarrow> real \<Rightarrow> exn + real) \<Rightarrow> string list \<Rightarrow> store \<Rightarrow> store \<times> exn option" where
  "populate_inputs number_input [] d = (d, None)"
| "populate_inputs number_input (v # vs) d =
     (case map_of d v of
        None \<Rightarrow> (d, Some KeyError)
      | Some b \<Rightarrow>
          (case number_input (''value_'' @ v) (b_value b) of
             Inl e \<Rightarrow> (d, Some e)
           | Inr val \<Rightarrow>
               (case number_input (''uncertainty_'' @ v) (b_uncertainty b) of
                  Inl e \<Rightarrow> (d, Some e)
                | Inr uncertainty \<Rightarrow>
                    populate_inputs number_input vs
                      (AList.update v \<lparr>b_value = val, b_uncertainty = uncertainty\<rparr> d))))"

subsection \<open>The calculation (lines 382-433)\<close>

text \<open>\<^verbatim>\<open>subs_dict = {var.name: st.session_state.error_variables[var.name]["value"]
             for var in variables}\<close>\<close>

fun build_subs_dict ::
  "store \<Rightarrow> string list \<Rightarrow> (string \<times> real) list \<Rightarrow> exn + (string \<times> real) list" where
  "build_subs_dict d [] acc = Inr acc"
| "build_subs_dict d (v # vs) acc =
     (case map_of d v of
        None \<Rightarrow> Inl KeyError
      | Some b \<Rightarrow> build_subs_dict d vs (AList.update v (b_value b) acc))"

text \<open>
  \<^verbatim>\<open>
  error_squared_sum = 0
  for var in variables:
      partial_deriv = diff(expr, var)
      partial_deriv_value = partial_deriv.subs(subs_dict)
      var_uncertainty = st.session_state.error_variables[var.name]["uncertainty"]
      error_squared_sum += (partial_deriv_value * var_uncertainty) ** 2
  \<close>
  The sum is \<open>None\<close> while it is still the integer \<open>0\<close>.
\<close>

definition add_term :: "('e, 's, 'v) sympy \<Rightarrow> 'v option \<Rightarrow> 'v \<Rightarrow> exn + 'v" where
  "add_term lib error_squared_sum term =
     (case error_squared_sum of
        None \<Rightarrow> v_radd0 lib term
      | Some acc \<Rightarrow> v_add lib acc term)"

fun propagation_loop ::
  "('e, 's, 'v) sympy \<Rightarrow> 'e \<Rightarrow> (string \<times> real) list \<Rightarrow> store \<Rightarrow> 's list \<Rightarrow> 'v option \<Rightarrow>
   exn + 'v option" where
  "propagation_loop lib expr subs_dict d [] error_squared_sum = Inr error_squared_sum"
| "propagation_loop lib expr subs_dict d (var # vars) error_squared_sum =
     and_then (diff lib expr var) (\<lambda>partial_deriv.
     and_then (subs lib partial_deriv subs_dict) (\<lambda>partial_deriv_value.
       case map_of d (symbol_name lib var) of
         None \<Rightarrow> Inl KeyError
       | Some b \<Rightarrow>
           and_then (v_mul lib partial_deriv_value (b_uncertainty b)) (\<lambda>product.
           and_then (v_pow2 lib product) (\<lambda>term.
           and_then (add_term lib error_squared_sum term) (\<lambda>acc.
             propagation_loop lib expr subs_dict d vars (Some acc))))))"

text \<open>\<open>math.sqrt(error_squared_sum)\<close> (line 404): the sum is converted to a float first.\<close>

definition sqrt_of_sum ::
  "(real \<Rightarrow> real) \<Rightarrow> ('e, 's, 'v) sympy \<Rightarrow> 'v option \<Rightarrow> exn + pyfloat" where
  "sqrt_of_sum rnd lib error_squared_sum =
     (case error_squared_sum of
        None \<Rightarrow> math_sqrt rnd (Fin 0)
      | Some acc \<Rightarrow> and_then (v_float lib acc) (math_sqrt rnd))"

record session =
  error_formula :: string
  error_variables :: store
  session_propagated_error :: "pyfloat option"
  session_percentage_error :: "pyfloat option"

text \<open>What is shown at line 419 and 422: \<open>float(result)\<close>, the propagated error and, when
  there is one, the percentage error.\<close>

record calculation =
  result :: pyfloat
  propagated_error :: pyfloat
  percentage_error :: "pyfloat option"

text \<open>
  Lines 383-433, the body of the inner \<open>try\<close>. The session state is written at line 407
  (the propagated error) and at lines 412 or 415 (the percentage error), so the state
  reached when an exception is raised is returned with it. After line 419 nothing new can
  raise: lines 431-433 repeat the calls \<open>diff(expr, var)\<close> that have already returned.
\<close>

definition calculate ::
  "(real \<Rightarrow> real) \<Rightarrow> ('e, 's, 'v) sympy \<Rightarrow> 'e \<Rightarrow> 's list \<Rightarrow> session \<Rightarrow>
   session \<times> (exn + calculation)" where
  "calculate rnd lib expr variables s =
     (case and_then
             (build_subs_dict (error_variables s) (map (symbol_name lib) variables) [])
             (\<lambda>subs_dict.
           and_then (subs lib expr subs_dict) (\<lambda>res.
           and_then
             (propagation_loop lib expr subs_dict (error_variables s) variables None)
             (\<lambda>error_squared_sum.
           and_then (sqrt_of_sum rnd lib error_squared_sum) (\<lambda>pe. Inr (res, pe))))) of
        Inl e \<Rightarrow> (s, Inl e)
      | Inr (res, pe) \<Rightarrow>
          (let s1 = s\<lparr>session_propagated_error := Some pe\<rparr>
           in if v_ne0 lib res then
                (case and_then (v_float lib res) (\<lambda>f.
                      and_then (fdiv rnd pe (fabs f)) (\<lambda>q. Inr (f, fmul rnd q (Fin 100)))) of
                   Inl e \<Rightarrow> (s1, Inl e)
                 | Inr (f, pct) \<Rightarrow>
                     (s1\<lparr>session_percentage_error := Some pct\<rparr>,
                      Inr \<lparr>result = f, propagated_error = pe, percentage_error = Some pct\<rparr>))
              else
                (let s2 = s1\<lparr>session_percentage_error := None\<rparr>
                 in case v_float lib res of
                      Inl e \<Rightarrow> (s2, Inl e)
                    | Inr f \<Rightarrow>
                        (s2, Inr \<lparr>result = f, propagated_error = pe,
                                  percentage_error = None\<rparr>))))"

subsection \<open>The Complex Function branch (lines 331-439)\<close>

text \<open>What the branch shows: the message of the outer handler (line 439), the message of
  the inner handler (line 436), the input fields alone, or the input fields and a result.\<close>

datatype display =
    ParsingError exn
  | CalculationError exn
  | InputsOnly
  | Result calculation

text \<open>
  The body of the outer \<open>try\<close> (lines 345-436). \<open>Inl e\<close> is an exception that leaves the
  body, returned with the session state reached; the inner \<open>try\<close> turns every exception of
  the calculation into the message of line 436.
\<close>

definition complex_function_body ::
  "(real \<Rightarrow> real) \<Rightarrow> ('e, 's, 'v) sympy \<Rightarrow> (nat \<Rightarrow> exn option) \<Rightarrow>
   (string \<Rightarrow> real \<Rightarrow> exn + real) \<Rightarrow> bool \<Rightarrow> string \<Rightarrow> session \<Rightarrow>
   session \<times> (exn + display)" where
  "complex_function_body rnd lib st_columns number_input button expression s =
     (case parse_variables lib expression of
        Inl e \<Rightarrow> (s, Inl e)
      | Inr (expr, variables) \<Rightarrow>
          (let names = map (symbol_name lib) variables;
               s1 = s\<lparr>error_variables := reconcile (error_variables s) names\<rparr>
           in case st_columns (length variables) of
                Some e \<Rightarrow> (s1, Inl e)
              | None \<Rightarrow>
                  (case populate_inputs number_input names (error_variables s1) of
                     (d, Some e) \<Rightarrow> (s1\<lparr>error_variables := d\<rparr>, Inl e)
                   | (d, None) \<Rightarrow>
                       (let s2 = s1\<lparr>error_variables := d\<rparr>
                        in if button \<and> variables \<noteq> [] then
                             (case calculate rnd lib expr variables s2 of
                                (s3, Inl e) \<Rightarrow> (s3, Inr (CalculationError e))
                              | (s3, Inr c) \<Rightarrow> (s3, Inr (Result c)))
                           else (s2, Inr InputsOnly)))))"

text \<open>
  The branch: the expression is stored (line 341), the body runs, and
  \<open>except Exception as e\<close> (line 438) reports whatever left it as a parsing error.
  The outcome is \<open>Inl e\<close> when an exception leaves the page script uncaught.
\<close>

definition complex_function ::
  "(real \<Rightarrow> real) \<Rightarrow> ('e, 's, 'v) sympy \<Rightarrow> (nat \<Rightarrow> exn option) \<Rightarrow>
   (string \<Rightarrow> real \<Rightarrow> exn + real) \<Rightarrow> bool \<Rightarrow> string \<Rightarrow> session \<Rightarrow>
   session \<times> (exn + display)" where
  "complex_function rnd lib st_columns number_input button expression s =
     (case complex_function_body rnd lib st_columns number_input button expression
             (s\<lparr>error_formula := expression\<rparr>) of
        (s', Inl e) \<Rightarrow> (s', Inr (ParsingError e))
      | (s', Inr shown) \<Rightarrow> (s', Inr shown))"

subsection \<open>IEEE rounding\<close>

text \<open>
  Rounding of a real to the nearest double, ties to even, for the normal range (53-bit
  significand; subnormals and the overflow threshold are not modelled here). It is one
  instance of the parameter \<open>rnd\<close>; the other is the identity, for exact arithmetic.
\<close>

definition round_half_even :: "real \<Rightarrow> int" where
  "round_half_even y =
     (let f = \<lfloor>y\<rfloor>; d = y - of_int f
      in if d < 1/2 then f else if 1/2 < d then f + 1 else if even f then f else f + 1)"

definition round_double :: "real \<Rightarrow> real" where
  "round_double x =
     (if x = 0 then 0
      else (let e = \<lfloor>log 2 \<bar>x\<bar>\<rfloor> - 52
            in sgn x * of_int (round_half_even (\<bar>x\<bar> / 2 powi e)) * 2 powi e))"

subsection \<open>The propagation law in the specification's words\<close>

text \<open>
  Steps 2 to 4 of the specification, with the library's own operations: the partial
  derivative of the expression in each variable, evaluated at the bound values
  (\<open>partial_values\<close>), and the square root of the sum of (partial value times uncertainty)
  squared (\<open>root_sum_square\<close>).
\<close>

definition uncertainty_of :: "store \<Rightarrow> string \<Rightarrow> real" where
  "uncertainty_of d v = (case map_of d v of Some b \<Rightarrow> b_uncertainty b | None \<Rightarrow> 0)"

fun partial_values ::
  "('e, 's, 'v) sympy \<Rightarrow> 'e \<Rightarrow> (string \<times> real) list \<Rightarrow> 's list \<Rightarrow> exn + 'v list" where
  "partial_values lib expr subs_dict [] = Inr []"
| "partial_values lib expr subs_dict (var # vars) =
     and_then (diff lib expr var) (\<lambda>partial_deriv.
     and_then (subs lib partial_deriv subs_dict) (\<lambda>p.
     and_then (partial_values lib expr subs_dict vars) (\<lambda>ps. Inr (p # ps))))"

fun sum_of_squares ::
  "('e, 's, 'v) sympy \<Rightarrow> ('v \<times> real) list \<Rightarrow> 'v option \<Rightarrow> exn + 'v option" where
  "sum_of_squares lib [] acc = Inr acc"
| "sum_of_squares lib ((p, u) # rest) acc =
     and_then (v_mul lib p u) (\<lambda>product.
     and_then (v_pow2 lib product) (\<lambda>term.
     and_then (add_term lib acc term) (\<lambda>acc'. sum_of_squares lib rest (Some acc'))))"

definition root_sum_square ::
  "(real \<Rightarrow> real) \<Rightarrow> ('e, 's, 'v) sympy \<Rightarrow> ('v \<times> real) list \<Rightarrow> exn + pyfloat" where
  "root_sum_square rnd lib terms =
     and_then (sum_of_squares lib terms None) (sqrt_of_sum rnd lib)"

text \<open>
  What it means for the library to be exact. A relation \<open>R\<close> says which real number a
  library value denotes. The arithmetic is exact when squaring and adding respect \<open>R\<close>,
  \<open>float\<close> returns the denoted number whenever it is in the float range, and the
  comparison with \<open>0\<close> is that of the denoted number. The library is
  exact on an expression that denotes the function \<open>f\<close> when, at the substituted values,
  \<open>subs\<close> returns a value that denotes \<open>f\<close> there, and for each variable the product of its
  partial value with its uncertainty \<open>u\<close> denotes \<open>D * u\<close>, where \<open>D\<close> is the derivative of
  \<open>f\<close> in that variable (a variable of uncertainty \<open>0\<close> contributes \<open>0\<close>, whatever its
  partial value is).
\<close>

definition env_of :: "(string \<times> real) list \<Rightarrow> string \<Rightarrow> real" where
  "env_of subs_dict v = (case map_of subs_dict v of Some x \<Rightarrow> x | None \<Rightarrow> 0)"

definition exact_values :: "('e, 's, 'v) sympy \<Rightarrow> ('v \<Rightarrow> real \<Rightarrow> bool) \<Rightarrow> bool" where
  "exact_values lib R \<longleftrightarrow>
     (\<forall>p x. R p x \<longrightarrow> (\<exists>q. v_pow2 lib p = Inr q \<and> R q (x\<^sup>2))) \<and>
     (\<forall>p x. R p x \<longrightarrow> (\<exists>q. v_radd0 lib p = Inr q \<and> R q x)) \<and>
     (\<forall>p x q y. R p x \<longrightarrow> R q y \<longrightarrow> (\<exists>s. v_add lib p q = Inr s \<and> R s (x + y))) \<and>
     (\<forall>p x. R p x \<longrightarrow> \<bar>x\<bar> \<le> float_max \<longrightarrow> v_float lib p = Inr (Fin x)) \<and>
     (\<forall>p x. R p x \<longrightarrow> (v_ne0 lib p \<longleftrightarrow> x \<noteq> 0))"

definition exact_term ::
  "('e, 's, 'v) sympy \<Rightarrow> ('v \<Rightarrow> real \<Rightarrow> bool) \<Rightarrow> 'e \<Rightarrow> (string \<times> real) list \<Rightarrow>
   ((string \<Rightarrow> real) \<Rightarrow> real) \<Rightarrow> store \<Rightarrow> 's \<Rightarrow> real \<Rightarrow> bool" where
  "exact_term lib R expr subs_dict f d var D \<longleftrightarrow>
     (\<exists>e p q. diff lib expr var = Inr e \<and> subs lib e subs_dict = Inr p
               \<and> v_mul lib p (uncertainty_of d (symbol_name lib var)) = Inr q
               \<and> R q (D * uncertainty_of d (symbol_name lib var))) \<and>
     (uncertainty_of d (symbol_name lib var) \<noteq> 0 \<longrightarrow>
        ((\<lambda>t. f ((env_of subs_dict)(symbol_name lib var := t))) has_real_derivative D)
          (at (env_of subs_dict (symbol_name lib var))))"

definition exact_on ::
  "('e, 's, 'v) sympy \<Rightarrow> ('v \<Rightarrow> real \<Rightarrow> bool) \<Rightarrow> 'e \<Rightarrow> (string \<times> real) list \<Rightarrow>
   ((string \<Rightarrow> real) \<Rightarrow> real) \<Rightarrow> store \<Rightarrow> 's list \<Rightarrow> real list \<Rightarrow> bool" where
  "exact_on lib R expr subs_dict f d variables Ds \<longleftrightarrow>
     (\<exists>r. subs lib expr subs_dict = Inr r \<and> R r (f (env_of subs_dict))) \<and>
     list_all2 (exact_term lib R expr subs_dict f d) variables Ds"

text \<open>The number that the running sum of line 401 denotes: \<open>0\<close> while it is the integer
  \<open>0\<close>.\<close>

definition sum_denotes :: "('v \<Rightarrow> real \<Rightarrow> bool) \<Rightarrow> 'v option \<Rightarrow> real \<Rightarrow> bool" where
  "sum_denotes R acc x \<longleftrightarrow> (case acc of None \<Rightarrow> x = 0 | Some v \<Rightarrow> R v x)"

text \<open>The sum of (derivative times uncertainty) squared over the variables.\<close>

definition squares_total :: "('s \<Rightarrow> string) \<Rightarrow> store \<Rightarrow> 's list \<Rightarrow> real list \<Rightarrow> real" where
  "squares_total name d variables Ds =
     (\<Sum>(var, D)\<leftarrow>zip variables Ds. (D * uncertainty_of d (name var))\<^sup>2)"

text \<open>
  The two-variable expression that corresponds to a row of the basic calculator: the
  operands are \<open>A\<close> and \<open>B\<close>, for the power \<open>A\<close> and the exponent \<open>n\<close>. \<open>real_power\<close> is the
  real power: defined for a positive base, for a zero base with a non-negative exponent
  and for a negative base with an integral exponent.
\<close>

definition real_power :: "real \<Rightarrow> real \<Rightarrow> real" where
  "real_power a n =
     (if 0 < a then a powr n
      else if a = 0 then (if n = 0 then 1 else 0)
      else a powi \<lfloor>n\<rfloor>)"

fun operation_function :: "operation \<Rightarrow> (string \<Rightarrow> real) \<Rightarrow> real" where
  "operation_function Addition env = env ''A'' + env ''B''"
| "operation_function Subtraction env = env ''A'' - env ''B''"
| "operation_function Multiplication env = env ''A'' * env ''B''"
| "operation_function Division env = env ''A'' / env ''B''"
| "operation_function Power env = real_power (env ''A'') (env ''n'')"

fun second_operand :: "operation \<Rightarrow> string" where
  "second_operand Power = ''n''"
| "second_operand operation = ''B''"

definition two_bindings :: "operation \<Rightarrow> real \<Rightarrow> real \<Rightarrow> real \<Rightarrow> real \<Rightarrow> store" where
  "two_bindings operation a ua b ub =
     [(''A'', \<lparr>b_value = a, b_uncertainty = ua\<rparr>),
      (second_operand operation, \<lparr>b_value = b, b_uncertainty = ub\<rparr>)]"

definition session_with :: "store \<Rightarrow> session" where
  "session_with d =
     \<lparr>error_formula = [], error_variables = d,
      session_propagated_error = None, session_percentage_error = None\<rparr>"


subsection \<open>An instance of the parameters for the examples\<close>

text \<open>
  The examples below run the page on concrete inputs, which needs concrete values for the
  parameters. The instance is a small expression type with the textbook rules of
  differentiation, evaluated over values that are a real number, a complex number, the
  complex infinity \<open>zoo\<close> (a division by zero), \<open>nan\<close>, or some other object (an expression
  that still holds a symbol, or a value this instance does not compute). As in the
  library, arithmetic on these values does not raise; \<open>float\<close> raises \<open>TypeError\<close> on a
  complex number, on \<open>zoo\<close> and on an expression. None of this is used by the general
  theorems.
\<close>

datatype symbol = Symbol (sym_name: string) (sym_positive: bool)

datatype expr =
    Num real
  | Sym symbol
  | Add expr expr
  | Mul expr expr
  | Pwr expr expr
  | Log expr
  | PyList "expr list"

datatype sval = SReal real | SComplex complex | SZoo | SNan | SOther

definition mk_complex :: "complex \<Rightarrow> sval" where
  "mk_complex z = (if Im z = 0 then SReal (Re z) else SComplex z)"

fun s_add :: "sval \<Rightarrow> sval \<Rightarrow> sval" where
  "s_add SNan y = SNan"
| "s_add x SNan = SNan"
| "s_add (SReal x) (SReal y) = SReal (x + y)"
| "s_add (SReal x) (SComplex w) = mk_complex (of_real x + w)"
| "s_add (SComplex z) (SReal y) = mk_complex (z + of_real y)"
| "s_add (SComplex z) (SComplex w) = mk_complex (z + w)"
| "s_add SZoo SZoo = SNan"
| "s_add SZoo y = SZoo"
| "s_add x SZoo = SZoo"
| "s_add x y = SOther"

fun s_mul :: "sval \<Rightarrow> sval \<Rightarrow> sval" where
  "s_mul SNan y = SNan"
| "s_mul x SNan = SNan"
| "s_mul (SReal x) (SReal y) = SReal (x * y)"
| "s_mul (SReal x) (SComplex w) = mk_complex (of_real x * w)"
| "s_mul (SComplex z) (SReal y) = mk_complex (z * of_real y)"
| "s_mul (SComplex z) (SComplex w) = mk_complex (z * w)"
| "s_mul (SReal x) y = (if x = 0 then (if y = SZoo then SNan else SReal 0) else y)"
| "s_mul x (SReal y) = (if y = 0 then (if x = SZoo then SNan else SReal 0) else x)"
| "s_mul SZoo y = SZoo"
| "s_mul x SZoo = SZoo"
| "s_mul x y = SOther"

text \<open>Powers and logarithms of real numbers; a negative base with a fractional exponent
  and the logarithm of a negative number take their principal complex values.\<close>

definition real_pow_value :: "real \<Rightarrow> real \<Rightarrow> sval" where
  "real_pow_value a n =
     (if 0 < a then SReal (a powr n)
      else if a = 0 then (if n < 0 then SZoo else SReal (if n = 0 then 1 else 0))
      else if n = of_int \<lfloor>n\<rfloor> then SReal (a powi \<lfloor>n\<rfloor>)
      else mk_complex (Complex (\<bar>a\<bar> powr n * cos (n * pi)) (\<bar>a\<bar> powr n * sin (n * pi))))"

fun s_pow :: "sval \<Rightarrow> sval \<Rightarrow> sval" where
  "s_pow SNan y = SNan"
| "s_pow x SNan = SNan"
| "s_pow (SReal a) (SReal n) = real_pow_value a n"
| "s_pow x y = SOther"

fun s_log :: "sval \<Rightarrow> sval" where
  "s_log (SReal a) =
     (if 0 < a then SReal (ln a)
      else if a = 0 then SZoo
      else SComplex (Complex (ln (- a)) pi))"
| "s_log SNan = SNan"
| "s_log x = SOther"

fun expr_free_symbols :: "expr \<Rightarrow> symbol list" where
  "expr_free_symbols (Num c) = []"
| "expr_free_symbols (Sym x) = [x]"
| "expr_free_symbols (Add a b) = remdups (expr_free_symbols a @ expr_free_symbols b)"
| "expr_free_symbols (Mul a b) = remdups (expr_free_symbols a @ expr_free_symbols b)"
| "expr_free_symbols (Pwr a b) = remdups (expr_free_symbols a @ expr_free_symbols b)"
| "expr_free_symbols (Log a) = expr_free_symbols a"
| "expr_free_symbols (PyList xs) = []"

text \<open>A Python list has no attribute \<open>free_symbols\<close>.\<close>

definition sample_free_symbols :: "expr \<Rightarrow> exn + symbol list" where
  "sample_free_symbols e =
     (case e of PyList xs \<Rightarrow> Inl AttributeError | _ \<Rightarrow> Inr (expr_free_symbols e))"

fun expr_diff :: "expr \<Rightarrow> symbol \<Rightarrow> expr" where
  "expr_diff (Num c) v = Num 0"
| "expr_diff (Sym x) v = (if x = v then Num 1 else Num 0)"
| "expr_diff (Add a b) v = Add (expr_diff a v) (expr_diff b v)"
| "expr_diff (Mul a b) v = Add (Mul (expr_diff a v) b) (Mul a (expr_diff b v))"
| "expr_diff (Pwr a (Num c)) v = Mul (Mul (Num c) (Pwr a (Num (c - 1)))) (expr_diff a v)"
| "expr_diff (Pwr a b) v =
     Mul (Pwr a b)
       (Add (Mul (expr_diff b v) (Log a)) (Mul (Mul b (expr_diff a v)) (Pwr a (Num (- 1)))))"
| "expr_diff (Log a) v = Mul (expr_diff a v) (Pwr a (Num (- 1)))"
| "expr_diff (PyList xs) v = PyList xs"

text \<open>The keys of \<open>subs_dict\<close> are strings; a string denotes the symbol of that name without
  assumptions, so a symbol with an assumption is not substituted.\<close>

fun expr_subs :: "expr \<Rightarrow> (string \<times> real) list \<Rightarrow> sval" where
  "expr_subs (Num c) sd = SReal c"
| "expr_subs (Sym x) sd =
     (if sym_positive x then SOther
      else case map_of sd (sym_name x) of Some r \<Rightarrow> SReal r | None \<Rightarrow> SOther)"
| "expr_subs (Add a b) sd = s_add (expr_subs a sd) (expr_subs b sd)"
| "expr_subs (Mul a b) sd = s_mul (expr_subs a sd) (expr_subs b sd)"
| "expr_subs (Pwr a b) sd = s_pow (expr_subs a sd) (expr_subs b sd)"
| "expr_subs (Log a) sd = s_log (expr_subs a sd)"
| "expr_subs (PyList xs) sd = SOther"

fun sample_float :: "sval \<Rightarrow> exn + pyfloat" where
  "sample_float (SReal x) = Inr (to_range x)"
| "sample_float SNan = Inr NaN"
| "sample_float v = Inl TypeError"

fun sample_ne0 :: "sval \<Rightarrow> bool" where
  "sample_ne0 (SReal x) = (x \<noteq> 0)"
| "sample_ne0 v = True"

text \<open>
  The library's parse of the texts the examples use: \<open>a-a\<close> is simplified to \<open>0\<close> on
  construction, \<open>sqrt(x)\<close> is the power \<open>x**(1/2)\<close>, \<open>A-B\<close> is \<open>A + (-1)*B\<close>, \<open>A/B\<close> is
  \<open>A*B**(-1)\<close>, \<open>[x, y]\<close> is a Python list, and \<open>Symbol('x', positive=True) + x\<close> is the sum
  of two different symbols of the same name. A text that is not listed is rejected, as
  the malformed text \<open>(x+\<close> is.
\<close>

definition plain :: "string \<Rightarrow> expr" where
  "plain x = Sym (Symbol x False)"

definition positive_x_text :: string where
  "positive_x_text =
     ''Symbol('' @ [CHR 0x27] @ ''x'' @ [CHR 0x27] @ '', positive=True) + x''"

definition sample_sympify :: "string \<Rightarrow> exn + expr" where
  "sample_sympify text =
     (case map_of
        [(''x*y'', Mul (plain ''x'') (plain ''y'')),
         (''a-a'', Num 0),
         (''sqrt(x)'', Pwr (plain ''x'') (Num (1/2))),
         (''A+B'', Add (plain ''A'') (plain ''B'')),
         (''A-B'', Add (plain ''A'') (Mul (Num (- 1)) (plain ''B''))),
         (''A*B'', Mul (plain ''A'') (plain ''B'')),
         (''A/B'', Mul (plain ''A'') (Pwr (plain ''B'') (Num (- 1)))),
         (''A^n'', Pwr (plain ''A'') (plain ''n'')),
         (''[x, y]'', PyList [plain ''x'', plain ''y'']),
         (positive_x_text, Add (Sym (Symbol ''x'' True)) (plain ''x''))] text of
        Some e \<Rightarrow> Inr e
      | None \<Rightarrow> Inl SympifyError)"

definition sample_sympy :: "(expr, symbol, sval) sympy" where
  "sample_sympy =
     \<lparr>sympify = sample_sympify,
      free_symbols = sample_free_symbols,
      symbol_name = sym_name,
      diff = (\<lambda>e v. Inr (expr_diff e v)),
      subs = (\<lambda>e sd. Inr (expr_subs e sd)),
      v_mul = (\<lambda>v u. Inr (s_mul v (SReal u))),
      v_pow2 = (\<lambda>v. Inr (s_mul v v)),
      v_radd0 = (\<lambda>v. Inr v),
      v_add = (\<lambda>v w. Inr (s_add v w)),
      v_float = sample_float,
      v_ne0 = sample_ne0\<rparr>"

text \<open>The real number a value of the instance denotes.\<close>

definition sample_denotes :: "sval \<Rightarrow> real \<Rightarrow> bool" where
  "sample_denotes v x \<longleftrightarrow> v = SReal x"

text \<open>\<open>st.columns(n)\<close> accepts a positive number of columns only.\<close>

definition streamlit_columns :: "nat \<Rightarrow> exn option" where
  "streamlit_columns n = (if n = 0 then Some StreamlitAPIException else None)"

text \<open>A number-input widget into which the user has typed the listed numbers (by widget
  key); an untouched widget returns its default.\<close>

definition entered :: "(string \<times> real) list \<Rightarrow> string \<Rightarrow> real \<Rightarrow> exn + real" where
  "entered typed key dflt = (case map_of typed key of Some x \<Rightarrow> Inr x | None \<Rightarrow> Inr dflt)"

text \<open>The session state as lines 17-24 initialise it.\<close>

definition initial_session :: session where
  "initial_session = session_with []"

text \<open>Two runs of the Complex Function branch used as examples: \<open>x*y\<close> with
  \<open>x = 2 \<plusminus> 0.1\<close>, \<open>y = 3 \<plusminus> 0.2\<close>, and \<open>A-B\<close> with \<open>A = 5 \<plusminus> 0.3\<close>, \<open>B = 5 \<plusminus> 0.4\<close>.\<close>

definition xy_typed :: "(string \<times> real) list" where
  "xy_typed = [(''value_x'', 2), (''uncertainty_x'', 1/10),
               (''value_y'', 3), (''uncertainty_y'', 2/10)]"

definition xy_calculation :: calculation where
  "xy_calculation =
     \<lparr>result = Fin 6, propagated_error = Fin (1/2), percentage_error = Some (Fin (25/3))\<rparr>"

definition xy_session :: session where
  "xy_session =
     \<lparr>error_formula = ''x*y'',
      error_variables = [(''x'', \<lparr>b_value = 2, b_uncertainty = 1/10\<rparr>),
                         (''y'', \<lparr>b_value = 3, b_uncertainty = 2/10\<rparr>)],
      session_propagated_error = Some (Fin (1/2)),
      session_percentage_error = Some (Fin (25/3))\<rparr>"

definition ab_typed :: "(string \<times> real) list" where
  "ab_typed = [(''value_A'', 5), (''uncertainty_A'', 3/10),
               (''value_B'', 5), (''uncertainty_B'', 4/10)]"

definition ab_calculation :: calculation where
  "ab_calculation =
     \<lparr>result = Fin 0, propagated_error = Fin (1/2), percentage_error = None\<rparr>"

definition ab_session :: session where
  "ab_session =
     \<lparr>error_formula = ''A-B'',
      error_variables = [(''A'', \<lparr>b_value = 5, b_uncertainty = 3/10\<rparr>),
                         (''B'', \<lparr>b_value = 5, b_uncertainty = 4/10\<rparr>)],
      session_propagated_error = Some (Fin (1/2)), session_percentage_error = None\<rparr>"

section \<open>Properties\<close>

subsection \<open>Reconciliation\<close>

lemma map_of_add_missing:
  "map_of (add_missing v d) n =
     (case map_of d n of Some b \<Rightarrow> Some b
      | None \<Rightarrow> if n = v then Some zero_binding else None)"
  by (simp add: add_missing_def update_conv' split: option.splits)

lemma map_of_fold_add_missing:
  "map_of (fold add_missing vs d) n =
     (case map_of d n of Some b \<Rightarrow> Some b
      | None \<Rightarrow> if n \<in> set vs then Some zero_binding else None)"
proof (induction vs arbitrary: d)
  case Nil
  show ?case by (simp split: option.splits)
next
  case (Cons v vs)
  show ?case
    by (simp add: Cons.IH map_of_add_missing split: option.splits)
qed

lemma map_of_fresh_store_aux:
  "map_of (fold (\<lambda>v d. AList.update v zero_binding d) vs d) n =
     (if n \<in> set vs then Some zero_binding else map_of d n)"
  by (induction vs arbitrary: d) (simp_all add: update_conv')

lemma map_of_fresh_store:
  "map_of (fresh_store vs) n = (if n \<in> set vs then Some zero_binding else None)"
  by (simp add: fresh_store_def map_of_fresh_store_aux)



lemma reconcile_Nil [simp]: "reconcile ev [] = ev"
  by (simp add: reconcile_def fresh_store_def)

text \<open>
  Claim C2, as the code has it. Reconciliation keeps every existing binding unchanged,
  whether or not its name is in the new variable set, and adds a binding with value 0 and
  uncertainty 0 for each new name that has none. Nothing is ever removed: a name is absent
  afterwards only if it was absent before and is not a new name.
\<close>

theorem reconcile_keeps_and_adds:
  "map_of (reconcile ev variables) n =
     (case map_of ev n of
        Some b \<Rightarrow> Some b
      | None \<Rightarrow> if n \<in> set variables then Some zero_binding else None)"
proof (cases "ev = []")
  case True
  then have "reconcile ev variables = fold add_missing variables (fresh_store variables)"
    by (simp add: reconcile_def)
  with True show ?thesis
    by (simp add: map_of_fold_add_missing map_of_fresh_store)
next
  case False
  then have "reconcile ev variables = fold add_missing variables ev"
    by (simp add: reconcile_def)
  then show ?thesis
    by (simp add: map_of_fold_add_missing)
qed

text \<open>
  Claim C2 as stated fails on the specification's own example: with the store
  \<open>{x: (2, 0.1), y: (3, 0.2)}\<close> and the new variable set \<open>{x}\<close> (the expression changed from
  \<open>x*y\<close> to \<open>x+1\<close>), \<open>x\<close> keeps its binding but \<open>y\<close> is still in the store.
\<close>

theorem reconcile_does_not_remove:
  "map_of (reconcile
       [(''x'', \<lparr>b_value = 2, b_uncertainty = 1/10\<rparr>),
        (''y'', \<lparr>b_value = 3, b_uncertainty = 2/10\<rparr>)] [''x'']) ''x''
     = Some \<lparr>b_value = 2, b_uncertainty = 1/10\<rparr>
   \<and> map_of (reconcile
       [(''x'', \<lparr>b_value = 2, b_uncertainty = 1/10\<rparr>),
        (''y'', \<lparr>b_value = 3, b_uncertainty = 2/10\<rparr>)] [''x'']) ''y''
     = Some \<lparr>b_value = 3, b_uncertainty = 2/10\<rparr>"
  by (simp add: reconcile_def add_missing_def)

subsection \<open>The power row of the basic calculator\<close>

text \<open>
  Claim C7 against the code. For \<open>A = 0\<close> the power row shows the error message of line 329
  only when the exponent is not negative. For a negative exponent \<open>value_a ** power_n\<close> (line
  306) raises \<open>ZeroDivisionError\<close> before the test \<open>value_a != 0\<close> of line 309 is reached, and
  the branch has no handler: the exception leaves the page script. This holds for every
  rounding of the float operations.
\<close>

theorem power_of_zero:
  "basic_calculator rnd Power 0 uncertainty_a value_b uncertainty_b power_n =
     (if power_n < 0 then Inl ZeroDivisionError else Inr UnableToCalculate)"
  by (simp add: basic_calculator_def basic_operations_def float_pow_def)

subsection \<open>Sorting the free symbols\<close>

lemma length_variables_of [simp]: "length (variables_of name fs) = length fs"
  by (simp add: variables_of_def)

lemma variables_of_eq_Nil [simp]: "variables_of name fs = [] \<longleftrightarrow> fs = []"
  by (metis length_variables_of length_0_conv)

lemma mset_variables_of [simp]: "mset (variables_of name fs) = mset fs"
  by (simp add: variables_of_def)

lemma sorted_names_variables_of: "sorted (map name (variables_of name fs))"
  by (simp add: variables_of_def)

lemma names_determined:
  assumes "mset gs = mset fs"
  shows "map name (variables_of name gs) = map name (variables_of name fs)"
proof -
  have m: "mset (map name (variables_of name gs)) = mset (map name (variables_of name fs))"
    using assms by (simp add: variables_of_def)
  have s: "sorted (map name (variables_of name gs))" "sorted (map name (variables_of name fs))"
    by (simp_all add: variables_of_def)
  from m s(1) have "sort (map name (variables_of name fs)) = map name (variables_of name gs)"
    by (rule properties_for_sort)
  moreover from s(2) have "sort (map name (variables_of name fs)) = map name (variables_of name fs)"
    by (simp add: sort_key_id_if_sorted)
  ultimately show ?thesis by simp
qed

subsection \<open>The calculation\<close>

lemma and_then_Inr:
  "and_then m f = Inr y \<longleftrightarrow> (\<exists>x. m = Inr x \<and> f x = Inr y)"
  by (cases m) simp_all

lemma build_subs_dict_lookup:
  "build_subs_dict d vs acc = Inr sd \<Longrightarrow>
     list_all (\<lambda>v. map_of d v \<noteq> None) vs \<and>
     (\<forall>n. map_of sd n =
        (if n \<in> set vs then map_option b_value (map_of d n) else map_of acc n))"
proof (induction vs arbitrary: acc)
  case Nil
  then show ?case by simp
next
  case (Cons v vs)
  from Cons.prems obtain b where b: "map_of d v = Some b"
    and r: "build_subs_dict d vs (AList.update v (b_value b) acc) = Inr sd"
    by (auto split: option.splits)
  from Cons.IH[OF r] b show ?case
    by (auto simp: update_conv')
qed

lemma propagation_loop_partial_values:
  "propagation_loop lib expr sd d vars acc = Inr tot \<Longrightarrow>
     \<exists>ps. partial_values lib expr sd vars = Inr ps
        \<and> sum_of_squares lib
             (zip ps (map (\<lambda>var. uncertainty_of d (symbol_name lib var)) vars)) acc = Inr tot"
proof (induction vars arbitrary: acc)
  case Nil
  then show ?case by simp
next
  case (Cons var vars)
  from Cons.prems obtain e p b q t a where
    e: "diff lib expr var = Inr e" and p: "subs lib e sd = Inr p" and
    b: "map_of d (symbol_name lib var) = Some b" and
    q: "v_mul lib p (b_uncertainty b) = Inr q" and t: "v_pow2 lib q = Inr t" and
    a: "add_term lib acc t = Inr a" and
    r: "propagation_loop lib expr sd d vars (Some a) = Inr tot"
    by (auto simp: and_then_Inr split: option.splits)
  from Cons.IH[OF r] obtain ps where
    ps: "partial_values lib expr sd vars = Inr ps"
    "sum_of_squares lib (zip ps (map (\<lambda>var. uncertainty_of d (symbol_name lib var)) vars))
       (Some a) = Inr tot"
    by blast
  show ?case
    using e p b q t a ps by (simp add: uncertainty_of_def)
qed

lemma calculate_keeps_store [simp]:
  "error_variables (fst (calculate rnd lib expr vars s)) = error_variables s"
  "error_formula (fst (calculate rnd lib expr vars s)) = error_formula s"
  by (auto simp: calculate_def Let_def split: sum.splits prod.splits)

lemma calculate_Inr:
  assumes "calculate rnd lib expr vars s = (s', Inr c)"
  shows "\<exists>sd r ps.
           build_subs_dict (error_variables s) (map (symbol_name lib) vars) [] = Inr sd
         \<and> subs lib expr sd = Inr r
         \<and> v_float lib r = Inr (result c)
         \<and> partial_values lib expr sd vars = Inr ps
         \<and> root_sum_square rnd lib
              (zip ps (map (\<lambda>var. uncertainty_of (error_variables s) (symbol_name lib var)) vars))
             = Inr (propagated_error c)
         \<and> (if v_ne0 lib r
             then \<exists>q. fdiv rnd (propagated_error c) (fabs (result c)) = Inr q
                      \<and> percentage_error c = Some (fmul rnd q (Fin 100))
             else percentage_error c = None)
         \<and> session_propagated_error s' = Some (propagated_error c)
         \<and> session_percentage_error s' = percentage_error c
         \<and> error_variables s' = error_variables s"
proof -
  from assms obtain sd r tot pe where
    sd: "build_subs_dict (error_variables s) (map (symbol_name lib) vars) [] = Inr sd" and
    r: "subs lib expr sd = Inr r" and
    loop: "propagation_loop lib expr sd (error_variables s) vars None = Inr tot" and
    pe: "sqrt_of_sum rnd lib tot = Inr pe"
    by (auto simp: calculate_def and_then_Inr split: sum.splits prod.splits)
  from propagation_loop_partial_values[OF loop] pe obtain ps where
    ps: "partial_values lib expr sd vars = Inr ps" and
    rss: "root_sum_square rnd lib
            (zip ps (map (\<lambda>var. uncertainty_of (error_variables s) (symbol_name lib var)) vars))
          = Inr pe"
    by (auto simp: root_sum_square_def)
  show ?thesis
  proof (cases "v_ne0 lib r")
    case True
    with assms sd r loop pe obtain f q where
      "v_float lib r = Inr f" "fdiv rnd pe (fabs f) = Inr q"
      "c = \<lparr>result = f, propagated_error = pe, percentage_error = Some (fmul rnd q (Fin 100))\<rparr>"
      "s' = s\<lparr>session_propagated_error := Some pe,
              session_percentage_error := Some (fmul rnd q (Fin 100))\<rparr>"
      by (auto simp: calculate_def Let_def and_then_Inr split: sum.splits prod.splits)
    with True sd r ps rss show ?thesis by auto
  next
    case False
    with assms sd r loop pe obtain f where
      "v_float lib r = Inr f"
      "c = \<lparr>result = f, propagated_error = pe, percentage_error = None\<rparr>"
      "s' = s\<lparr>session_propagated_error := Some pe, session_percentage_error := None\<rparr>"
      by (auto simp: calculate_def Let_def split: sum.splits prod.splits)
    with False sd r ps rss show ?thesis by auto
  qed
qed

subsection \<open>The page\<close>



lemma complex_function_Result:
  assumes "complex_function rnd lib st_columns number_input button expression s
             = (s', Inr (Result c))"
  shows "\<exists>expr vars s2. parse_variables lib expression = Inr (expr, vars)
          \<and> calculate rnd lib expr vars s2 = (s', Inr c)"
  using assms
  unfolding complex_function_def complex_function_body_def
  by (auto simp: Let_def split: sum.splits option.splits prod.splits if_splits)

lemma parse_variables_Inr:
  "parse_variables lib expression = Inr (expr, vars) \<longleftrightarrow>
     (\<exists>symbols. sympify lib expression = Inr expr \<and> free_symbols lib expr = Inr symbols
        \<and> vars = variables_of (symbol_name lib) symbols)"
  by (auto simp: parse_variables_def and_then_Inr)


subsection \<open>Runs of the examples\<close>

lemma float_max_large: "10 ^ 300 \<le> float_max"
  by (simp add: float_max_def)

lemma to_range_Fin: "\<bar>r\<bar> \<le> 10 ^ 300 \<Longrightarrow> to_range r = Fin r"
  using float_max_large by (auto simp: to_range_def)

lemma sqrt_quarter: "sqrt (1/4) = 1/2"
  by (rule real_sqrt_unique) (simp_all add: power2_eq_square)


lemmas page_defs =
  complex_function_def complex_function_body_def parse_variables_def sample_sympy_def
  sample_sympify_def sample_free_symbols_def plain_def streamlit_columns_def entered_def
  initial_session_def session_with_def variables_of_def reconcile_def fresh_store_def
  add_missing_def calculate_def add_term_def sqrt_of_sum_def mk_complex_def

lemma example_xy:
  "complex_function (\<lambda>x. x) sample_sympy streamlit_columns (entered xy_typed) True ''x*y''
     initial_session = (xy_session, Inr (Result xy_calculation))"
  by (simp add: page_defs to_range_Fin power2_eq_square sqrt_quarter
      xy_typed_def xy_session_def xy_calculation_def)

lemma example_ab:
  "complex_function (\<lambda>x. x) sample_sympy streamlit_columns (entered ab_typed) True ''A-B''
     initial_session = (ab_session, Inr (Result ab_calculation))"
  by (simp add: page_defs to_range_Fin power2_eq_square sqrt_quarter
      ab_typed_def ab_session_def ab_calculation_def)


subsection \<open>The calculation with an exact library\<close>

lemma squares_total_Cons [simp]:
  "squares_total name d (var # vars) (D # Ds) =
     (D * uncertainty_of d (name var))\<^sup>2 + squares_total name d vars Ds"
  by (simp add: squares_total_def)

lemma squares_total_Nil [simp]: "squares_total name d [] Ds = 0" "squares_total name d vars [] = 0"
  by (simp_all add: squares_total_def)

lemma squares_total_nonneg: "0 \<le> squares_total name d vars Ds"
  unfolding squares_total_def by (rule sum_list_nonneg) auto

lemma loop_exact:
  assumes ev: "exact_values lib R"
  shows "list_all2 (exact_term lib R expr sd f d) vars Ds \<Longrightarrow>
         list_all (\<lambda>v. map_of d (symbol_name lib v) \<noteq> None) vars \<Longrightarrow>
         sum_denotes R acc a \<Longrightarrow>
         \<exists>t. propagation_loop lib expr sd d vars acc = Inr t
            \<and> sum_denotes R t (a + squares_total (symbol_name lib) d vars Ds)"
proof (induction vars Ds arbitrary: acc a rule: list_all2_induct)
  case Nil
  then show ?case by simp
next
  case (Cons var vars D Ds)
  let ?u = "uncertainty_of d (symbol_name lib var)"
  from Cons.prems obtain b where b: "map_of d (symbol_name lib var) = Some b"
    by auto
  then have u: "?u = b_uncertainty b" by (simp add: uncertainty_of_def)
  from Cons.hyps(1) obtain e p q where
    e: "diff lib expr var = Inr e" and p: "subs lib e sd = Inr p" and
    q: "v_mul lib p ?u = Inr q" and Rq: "R q (D * ?u)"
    unfolding exact_term_def by blast
  from ev Rq obtain t where t: "v_pow2 lib q = Inr t" and Rt: "R t ((D * ?u)\<^sup>2)"
    unfolding exact_values_def by blast
  have "\<exists>acc'. add_term lib acc t = Inr acc' \<and> R acc' (a + (D * ?u)\<^sup>2)"
  proof (cases acc)
    case None
    with Cons.prems have "a = 0" by (simp add: sum_denotes_def)
    with ev Rt None show ?thesis
      unfolding exact_values_def add_term_def by simp
  next
    case (Some v)
    with Cons.prems have "R v a" by (simp add: sum_denotes_def)
    with ev Rt Some show ?thesis
      unfolding exact_values_def add_term_def by simp
  qed
  then obtain acc' where a': "add_term lib acc t = Inr acc'" and
    Ra: "R acc' (a + (D * ?u)\<^sup>2)" by blast
  have "sum_denotes R (Some acc') (a + (D * ?u)\<^sup>2)"
    using Ra by (simp add: sum_denotes_def)
  from Cons.IH[OF _ this] Cons.prems obtain r where
    "propagation_loop lib expr sd d vars (Some acc') = Inr r"
    "sum_denotes R r (a + (D * ?u)\<^sup>2 + squares_total (symbol_name lib) d vars Ds)"
    by auto
  then show ?case
    using e p b q t a' u by (simp add: add.assoc)
qed

lemma sqrt_of_sum_exact:
  assumes "exact_values lib R" "sum_denotes R t x" "0 \<le> x" "x \<le> float_max"
  shows "sqrt_of_sum rnd lib t = Inr (Fin (rnd (sqrt x)))"
proof (cases t)
  case None
  with assms show ?thesis by (simp add: sqrt_of_sum_def sum_denotes_def)
next
  case (Some v)
  with assms have "R v x" by (simp add: sum_denotes_def)
  with assms have "v_float lib v = Inr (Fin x)"
    unfolding exact_values_def by simp
  with Some assms(3) show ?thesis by (simp add: sqrt_of_sum_def)
qed

lemma calculate_exact:
  assumes sd: "build_subs_dict (error_variables s) (map (symbol_name lib) vars) [] = Inr sd"
    and ev: "exact_values lib R"
    and eo: "exact_on lib R expr sd f (error_variables s) vars Ds"
    and r1: "squares_total (symbol_name lib) (error_variables s) vars Ds \<le> float_max"
    and r2: "\<bar>f (env_of sd)\<bar> \<le> float_max"
  shows "calculate rnd lib expr vars s =
    (let pe = rnd (sqrt (squares_total (symbol_name lib) (error_variables s) vars Ds));
         pct = (if f (env_of sd) = 0 then None
                else Some (fmul rnd (to_range (rnd (pe / \<bar>f (env_of sd)\<bar>))) (Fin 100)))
     in (s\<lparr>session_propagated_error := Some (Fin pe), session_percentage_error := pct\<rparr>,
         Inr \<lparr>result = Fin (f (env_of sd)), propagated_error = Fin pe,
              percentage_error = pct\<rparr>))"
proof -
  let ?S = "squares_total (symbol_name lib) (error_variables s) vars Ds"
  from eo obtain r where r: "subs lib expr sd = Inr r" and Rr: "R r (f (env_of sd))"
    and terms: "list_all2 (exact_term lib R expr sd f (error_variables s)) vars Ds"
    unfolding exact_on_def by blast
  from build_subs_dict_lookup[OF sd]
  have dom: "list_all (\<lambda>v. map_of (error_variables s) (symbol_name lib v) \<noteq> None) vars"
    by (simp add: list_all_iff)
  have "sum_denotes R None 0" by (simp add: sum_denotes_def)
  from loop_exact[OF ev terms dom this] obtain t where
    t: "propagation_loop lib expr sd (error_variables s) vars None = Inr t" and
    St: "sum_denotes R t ?S"
    by auto
  have pe: "sqrt_of_sum rnd lib t = Inr (Fin (rnd (sqrt ?S)))"
    by (rule sqrt_of_sum_exact[OF ev St squares_total_nonneg r1])
  from ev Rr r2 have fl: "v_float lib r = Inr (Fin (f (env_of sd)))"
    unfolding exact_values_def by simp
  from ev Rr have ne: "v_ne0 lib r \<longleftrightarrow> f (env_of sd) \<noteq> 0"
    unfolding exact_values_def by simp
  show ?thesis
    by (simp add: calculate_def sd r t pe fl ne Let_def)
qed

subsection \<open>The sample instance is exact\<close>

lemma sample_exact_values: "exact_values sample_sympy sample_denotes"
  by (auto simp: exact_values_def sample_sympy_def sample_denotes_def to_range_def
      power2_eq_square)

lemma sample_parse_xy:
  "parse_variables sample_sympy ''x*y'' =
     Inr (Mul (plain ''x'') (plain ''y''), [Symbol ''x'' False, Symbol ''y'' False])"
  by (simp add: parse_variables_def sample_sympy_def sample_sympify_def
      sample_free_symbols_def plain_def variables_of_def)

lemma sample_parse_ab:
  "parse_variables sample_sympy ''A-B'' =
     Inr (Add (plain ''A'') (Mul (Num (- 1)) (plain ''B'')),
          [Symbol ''A'' False, Symbol ''B'' False])"
  by (simp add: parse_variables_def sample_sympy_def sample_sympify_def
      sample_free_symbols_def plain_def variables_of_def)

lemma exact_on_xy:
  "exact_on sample_sympy sample_denotes (Mul (plain ''x'') (plain ''y''))
     [(''x'', 2), (''y'', 3)] (\<lambda>env. env ''x'' * env ''y'') (error_variables xy_session)
     [Symbol ''x'' False, Symbol ''y'' False] [3, 2]"
  by (auto simp: exact_on_def exact_term_def sample_sympy_def sample_denotes_def plain_def
      env_of_def uncertainty_of_def xy_session_def intro!: derivative_eq_intros)

subsection \<open>The propagation law\<close>

text \<open>
  Claim C1. Whenever the Complex Function branch shows a result \<open>c\<close>: the expression was
  parsed and its free symbols sorted into the variable list; every variable was substituted
  by its bound value; the nominal result is the library's value of the substituted
  expression, converted to a float; the library's partial derivative in each variable was
  evaluated at the same values; and the propagated uncertainty, which is also written to
  the session state, is the square root of the sum over the variables of (partial value
  times bound uncertainty) squared. When the library is exact on the expression, that is,
  its values denote the value of a real function \<open>f\<close> and of its partial derivatives \<open>Ds\<close>
  at the bound values, the nominal result is \<open>f\<close> at the bound values and the propagated
  uncertainty is the rounded square root of the sum of \<open>(D * uncertainty)\<^sup>2\<close>, both
  provided they are in the float range.
\<close>

theorem complex_function_root_sum_square:
  assumes "complex_function rnd lib st_columns number_input button expression s
             = (s', Inr (Result c))"
  shows "\<exists>expr variables subs_dict r partials.
           parse_variables lib expression = Inr (expr, variables)
         \<and> build_subs_dict (error_variables s') (map (symbol_name lib) variables) []
             = Inr subs_dict
         \<and> subs lib expr subs_dict = Inr r
         \<and> v_float lib r = Inr (result c)
         \<and> partial_values lib expr subs_dict variables = Inr partials
         \<and> root_sum_square rnd lib
              (zip partials
                 (map (\<lambda>var. uncertainty_of (error_variables s') (symbol_name lib var))
                    variables))
             = Inr (propagated_error c)
         \<and> session_propagated_error s' = Some (propagated_error c)
         \<and> (\<forall>R f Ds.
               exact_values lib R \<and>
               exact_on lib R expr subs_dict f (error_variables s') variables Ds \<and>
               squares_total (symbol_name lib) (error_variables s') variables Ds \<le> float_max \<and>
               \<bar>f (env_of subs_dict)\<bar> \<le> float_max \<longrightarrow>
               result c = Fin (f (env_of subs_dict)) \<and>
               propagated_error c =
                 Fin (rnd (sqrt (squares_total (symbol_name lib) (error_variables s')
                                   variables Ds))))"
proof -
  from complex_function_Result[OF assms] obtain expr vars s2 where
    p: "parse_variables lib expression = Inr (expr, vars)" and
    c: "calculate rnd lib expr vars s2 = (s', Inr c)"
    by blast
  from calculate_Inr[OF c] obtain sd r ps where
    sd: "build_subs_dict (error_variables s2) (map (symbol_name lib) vars) [] = Inr sd" and
    r: "subs lib expr sd = Inr r" "v_float lib r = Inr (result c)" and
    ps: "partial_values lib expr sd vars = Inr ps" and
    rss: "root_sum_square rnd lib
            (zip ps (map (\<lambda>var. uncertainty_of (error_variables s2) (symbol_name lib var)) vars))
          = Inr (propagated_error c)" and
    s: "session_propagated_error s' = Some (propagated_error c)"
       "error_variables s' = error_variables s2"
    by blast
  have "result c = Fin (f (env_of sd)) \<and>
        propagated_error c =
          Fin (rnd (sqrt (squares_total (symbol_name lib) (error_variables s') vars Ds)))"
    if "exact_values lib R" "exact_on lib R expr sd f (error_variables s') vars Ds"
       "squares_total (symbol_name lib) (error_variables s') vars Ds \<le> float_max"
       "\<bar>f (env_of sd)\<bar> \<le> float_max" for R f Ds
    using calculate_exact[OF sd that(1) that(2)[unfolded s(2)] that(3)[unfolded s(2)] that(4),
        of rnd] c s(2)
    by (auto simp: Let_def)
  with p sd r ps rss s show ?thesis
    by (intro exI[of _ expr] exI[of _ vars] exI[of _ sd] exI[of _ r] exI[of _ ps]) auto
qed

theorem complex_function_root_sum_square_witness:
  "complex_function (\<lambda>x. x) sample_sympy streamlit_columns (entered xy_typed) True ''x*y''
     initial_session = (xy_session, Inr (Result xy_calculation))
   \<and> exact_values sample_sympy sample_denotes
   \<and> exact_on sample_sympy sample_denotes (Mul (plain ''x'') (plain ''y''))
       [(''x'', 2), (''y'', 3)] (\<lambda>env. env ''x'' * env ''y'') (error_variables xy_session)
       [Symbol ''x'' False, Symbol ''y'' False] [3, 2]
   \<and> result xy_calculation = Fin (2 * 3)
   \<and> propagated_error xy_calculation = Fin (sqrt ((3 * (1/10))\<^sup>2 + (2 * (2/10))\<^sup>2))"
proof -
  from complex_function_root_sum_square[OF example_xy] obtain expr variables subs_dict where
    p: "parse_variables sample_sympy ''x*y'' = Inr (expr, variables)" and
    sd: "build_subs_dict (error_variables xy_session) (map (symbol_name sample_sympy) variables) []
           = Inr subs_dict" and
    ex: "\<And>R f Ds.
           exact_values sample_sympy R \<Longrightarrow>
           exact_on sample_sympy R expr subs_dict f (error_variables xy_session) variables Ds \<Longrightarrow>
           squares_total (symbol_name sample_sympy) (error_variables xy_session) variables Ds
             \<le> float_max \<Longrightarrow>
           \<bar>f (env_of subs_dict)\<bar> \<le> float_max \<Longrightarrow>
           result xy_calculation = Fin (f (env_of subs_dict)) \<and>
           propagated_error xy_calculation =
             Fin (sqrt (squares_total (symbol_name sample_sympy) (error_variables xy_session)
                          variables Ds))"
    by blast
  from p have e: "expr = Mul (plain ''x'') (plain ''y'')"
    "variables = [Symbol ''x'' False, Symbol ''y'' False]"
    by (simp_all add: sample_parse_xy)
  from sd have d: "subs_dict = [(''x'', 2), (''y'', 3)]"
    by (simp add: e sample_sympy_def xy_session_def)
  have "result xy_calculation = Fin ((\<lambda>env. env ''x'' * env ''y'') (env_of subs_dict)) \<and>
        propagated_error xy_calculation =
          Fin (sqrt (squares_total (symbol_name sample_sympy) (error_variables xy_session)
                       variables [3, 2]))"
    apply (rule ex[OF sample_exact_values])
    unfolding e d
      apply (rule exact_on_xy)
     apply (simp add: sample_sympy_def xy_session_def uncertainty_of_def float_max_def
        power2_eq_square)
    apply (simp add: env_of_def float_max_def)
    done
  then have "result xy_calculation = Fin (2 * 3) \<and>
     propagated_error xy_calculation = Fin (sqrt ((3 * (1/10))\<^sup>2 + (2 * (2/10))\<^sup>2))"
    unfolding e d
    by (simp add: env_of_def sample_sympy_def xy_session_def uncertainty_of_def)
  with example_xy sample_exact_values exact_on_xy show ?thesis
    by blast
qed

subsection \<open>The percentage error\<close>

text \<open>
  Claim C4. Whenever the Complex Function branch shows a result \<open>c\<close>, the nominal value
  shown is the float of the library's value \<open>r\<close> of the substituted expression. When the
  library's comparison \<open>r != 0\<close> holds, the percentage error is present and is the
  propagated uncertainty divided by the absolute nominal value, times 100, in that order of
  float operations; otherwise it is absent. A shown nominal value of zero always has an
  absent percentage error. When the library's comparison is exact, the percentage error is
  absent exactly when the nominal value is zero. The session state holds the same fields.
\<close>

theorem percentage_error_absent_iff_zero:
  assumes "complex_function rnd lib st_columns number_input button expression s
             = (s', Inr (Result c))"
  shows "\<exists>expr variables subs_dict r.
           parse_variables lib expression = Inr (expr, variables)
         \<and> build_subs_dict (error_variables s') (map (symbol_name lib) variables) []
             = Inr subs_dict
         \<and> subs lib expr subs_dict = Inr r
         \<and> v_float lib r = Inr (result c)
         \<and> (v_ne0 lib r \<longrightarrow>
              (\<exists>q. fdiv rnd (propagated_error c) (fabs (result c)) = Inr q
                 \<and> percentage_error c = Some (fmul rnd q (Fin 100))))
         \<and> (\<not> v_ne0 lib r \<longrightarrow> percentage_error c = None)
         \<and> (result c = Fin 0 \<longrightarrow> percentage_error c = None)
         \<and> (\<forall>R x. exact_values lib R \<and> R r x \<longrightarrow> (percentage_error c = None \<longleftrightarrow> x = 0))
         \<and> session_propagated_error s' = Some (propagated_error c)
         \<and> session_percentage_error s' = percentage_error c"
proof -
  from complex_function_Result[OF assms] obtain expr vars s2 where
    p: "parse_variables lib expression = Inr (expr, vars)" and
    c: "calculate rnd lib expr vars s2 = (s', Inr c)"
    by blast
  from calculate_Inr[OF c] obtain sd r where
    sd: "build_subs_dict (error_variables s') (map (symbol_name lib) vars) [] = Inr sd" and
    r: "subs lib expr sd = Inr r" "v_float lib r = Inr (result c)" and
    pct: "if v_ne0 lib r
          then \<exists>q. fdiv rnd (propagated_error c) (fabs (result c)) = Inr q
                  \<and> percentage_error c = Some (fmul rnd q (Fin 100))
          else percentage_error c = None" and
    s: "session_propagated_error s' = Some (propagated_error c)"
       "session_percentage_error s' = percentage_error c"
    by auto
  have zero: "percentage_error c = None" if "result c = Fin 0"
    using pct that by (cases "v_ne0 lib r") auto
  have exact: "percentage_error c = None \<longleftrightarrow> x = 0" if "exact_values lib R" "R r x" for R x
  proof -
    from that have "v_ne0 lib r \<longleftrightarrow> x \<noteq> 0"
      unfolding exact_values_def by blast
    with pct show ?thesis by (cases "v_ne0 lib r") auto
  qed
  from pct have a: "v_ne0 lib r \<longrightarrow>
      (\<exists>q. fdiv rnd (propagated_error c) (fabs (result c)) = Inr q
          \<and> percentage_error c = Some (fmul rnd q (Fin 100)))"
    and b: "\<not> v_ne0 lib r \<longrightarrow> percentage_error c = None"
    by (auto split: if_splits)
  have z: "result c = Fin 0 \<longrightarrow> percentage_error c = None"
    using zero by blast
  have ex: "\<forall>R x. exact_values lib R \<and> R r x \<longrightarrow> (percentage_error c = None \<longleftrightarrow> x = 0)"
    using exact by blast
  show ?thesis
    by (intro exI[of _ expr] exI[of _ vars] exI[of _ sd] exI[of _ r] conjI p sd r a b z ex s)
qed

theorem percentage_error_absent_iff_zero_witness:
  "complex_function (\<lambda>x. x) sample_sympy streamlit_columns (entered xy_typed) True ''x*y''
     initial_session = (xy_session, Inr (Result xy_calculation))
   \<and> fdiv (\<lambda>x. x) (propagated_error xy_calculation) (fabs (result xy_calculation))
       = Inr (Fin (1/12))
   \<and> percentage_error xy_calculation = Some (fmul (\<lambda>x. x) (Fin (1/12)) (Fin 100))
   \<and> session_percentage_error xy_session = Some (Fin (25/3))
   \<and> complex_function (\<lambda>x. x) sample_sympy streamlit_columns (entered ab_typed) True ''A-B''
       initial_session = (ab_session, Inr (Result ab_calculation))
   \<and> result ab_calculation = Fin 0
   \<and> percentage_error ab_calculation = None
   \<and> session_percentage_error ab_session = None"
proof -
  from percentage_error_absent_iff_zero[OF example_xy] obtain expr variables subs_dict r where
    p: "parse_variables sample_sympy ''x*y'' = Inr (expr, variables)" and
    sd: "build_subs_dict (error_variables xy_session) (map (symbol_name sample_sympy) variables) []
           = Inr subs_dict" and
    r: "subs sample_sympy expr subs_dict = Inr r" and
    ne: "v_ne0 sample_sympy r \<longrightarrow>
          (\<exists>q. fdiv (\<lambda>x. x) (propagated_error xy_calculation) (fabs (result xy_calculation))
                  = Inr q
              \<and> percentage_error xy_calculation = Some (fmul (\<lambda>x. x) q (Fin 100)))" and
    s: "session_percentage_error xy_session = percentage_error xy_calculation"
    by (elim exE conjE) (rule that; assumption)
  from p have e: "expr = Mul (plain ''x'') (plain ''y'')"
    "variables = [Symbol ''x'' False, Symbol ''y'' False]"
    by (simp_all add: sample_parse_xy)
  from sd have d: "subs_dict = [(''x'', 2), (''y'', 3)]"
    by (simp add: e sample_sympy_def xy_session_def)
  from r have "r = SReal 6"
    by (simp add: e d sample_sympy_def plain_def)
  then have "v_ne0 sample_sympy r"
    by (simp add: sample_sympy_def)
  with ne obtain q where
    q: "fdiv (\<lambda>x. x) (propagated_error xy_calculation) (fabs (result xy_calculation)) = Inr q"
       "percentage_error xy_calculation = Some (fmul (\<lambda>x. x) q (Fin 100))"
    by blast
  from q(1) have "q = Fin (1/12)"
    by (simp add: xy_calculation_def to_range_Fin)
  with q s have xy:
    "fdiv (\<lambda>x. x) (propagated_error xy_calculation) (fabs (result xy_calculation))
       = Inr (Fin (1/12))"
    "percentage_error xy_calculation = Some (fmul (\<lambda>x. x) (Fin (1/12)) (Fin 100))"
    "session_percentage_error xy_session = Some (Fin (25/3))"
    by (simp_all add: to_range_Fin)
  from percentage_error_absent_iff_zero[OF example_ab]
  have "(result ab_calculation = Fin 0 \<longrightarrow> percentage_error ab_calculation = None)
      \<and> session_percentage_error ab_session = percentage_error ab_calculation"
    by (elim exE conjE) (intro conjI; assumption)
  moreover have "result ab_calculation = Fin 0"
    by (simp add: ab_calculation_def)
  ultimately have ab: "result ab_calculation = Fin 0" "percentage_error ab_calculation = None"
    "session_percentage_error ab_session = None"
    by simp_all
  show ?thesis
    by (intro conjI example_xy example_ab xy ab)
qed

subsection \<open>The variable list\<close>

text \<open>
  Claim C6, as the code has it. When a text is parsed, the variable list is the list of
  the free symbols that the library returns for the parsed expression, each as often as
  it is returned, sorted by name: the names ascend, and the list of names is the same for
  every order in which the symbols are enumerated, so parsing the same text twice gives
  the same names. The page removes nothing from the list; the names ascend strictly, each
  occurring once, when no two of the free symbols have the same name.
\<close>

theorem variables_sorted_and_stable:
  assumes "parse_variables lib text = Inr (expr, variables)"
  shows "\<exists>symbols.
           sympify lib text = Inr expr
         \<and> free_symbols lib expr = Inr symbols
         \<and> mset variables = mset symbols
         \<and> sorted (map (symbol_name lib) variables)
         \<and> (\<forall>other. mset other = mset symbols \<longrightarrow>
               map (symbol_name lib) (variables_of (symbol_name lib) other)
                 = map (symbol_name lib) variables)
         \<and> (distinct (map (symbol_name lib) symbols) \<longrightarrow>
               sorted_wrt (<) (map (symbol_name lib) variables))"
proof -
  from assms obtain symbols where
    e: "sympify lib text = Inr expr" and f: "free_symbols lib expr = Inr symbols" and
    v: "variables = variables_of (symbol_name lib) symbols"
    by (auto simp: parse_variables_Inr)
  have m: "mset variables = mset symbols"
    by (simp add: v mset_variables_of)
  have srt: "sorted (map (symbol_name lib) variables)"
    by (simp add: v sorted_names_variables_of)
  have stable: "map (symbol_name lib) (variables_of (symbol_name lib) other)
                  = map (symbol_name lib) variables" if "mset other = mset symbols" for other
    unfolding v by (rule names_determined[OF that])
  have strict: "sorted_wrt (<) (map (symbol_name lib) variables)"
    if "distinct (map (symbol_name lib) symbols)"
  proof -
    have "mset (map (symbol_name lib) variables) = mset (map (symbol_name lib) symbols)"
      using m by simp
    then have "distinct (map (symbol_name lib) variables)"
      using that by (metis mset_eq_imp_distinct_iff)
    with srt show ?thesis
      by (simp add: strict_sorted_iff)
  qed
  from e f m srt stable strict show ?thesis
    by blast
qed

theorem variables_sorted_and_stable_witness:
  "parse_variables sample_sympy ''x*y'' =
     Inr (Mul (plain ''x'') (plain ''y''), [Symbol ''x'' False, Symbol ''y'' False])
   \<and> free_symbols sample_sympy (Mul (plain ''x'') (plain ''y''))
       = Inr [Symbol ''x'' False, Symbol ''y'' False]
   \<and> map (symbol_name sample_sympy)
       (variables_of (symbol_name sample_sympy) [Symbol ''y'' False, Symbol ''x'' False])
       = [''x'', ''y'']
   \<and> sorted_wrt (<) [''x'', ''y'']"
proof -
  from variables_sorted_and_stable[OF sample_parse_xy] obtain symbols where
    f: "free_symbols sample_sympy (Mul (plain ''x'') (plain ''y'')) = Inr symbols" and
    st: "\<And>other. mset other = mset symbols \<Longrightarrow>
           map (symbol_name sample_sympy) (variables_of (symbol_name sample_sympy) other)
             = map (symbol_name sample_sympy) [Symbol ''x'' False, Symbol ''y'' False]" and
    d: "distinct (map (symbol_name sample_sympy) symbols) \<Longrightarrow>
          sorted_wrt (<) (map (symbol_name sample_sympy) [Symbol ''x'' False, Symbol ''y'' False])"
    by (elim exE conjE) (rule that; blast)
  from f have s: "symbols = [Symbol ''x'' False, Symbol ''y'' False]"
    by (simp add: sample_sympy_def sample_free_symbols_def plain_def)
  have a: "free_symbols sample_sympy (Mul (plain ''x'') (plain ''y''))
             = Inr [Symbol ''x'' False, Symbol ''y'' False]"
    using f s by simp
  have "mset [Symbol ''y'' False, Symbol ''x'' False] = mset symbols"
    by (simp add: s)
  from st[OF this]
  have b: "map (symbol_name sample_sympy)
       (variables_of (symbol_name sample_sympy) [Symbol ''y'' False, Symbol ''x'' False])
       = [''x'', ''y'']"
    by (simp add: sample_sympy_def)
  have "distinct (map (symbol_name sample_sympy) symbols)"
    by (simp add: s sample_sympy_def)
  from d[OF this] have c: "sorted_wrt (<) [''x'', ''y'']"
    by (simp add: sample_sympy_def)
  show ?thesis
    by (intro conjI sample_parse_xy a b c)
qed

text \<open>
  Claim C6 as stated fails: the library accepts the text
  \<open>Symbol('x', positive=True) + x\<close>, whose two free symbols are different symbols of the one
  name \<open>x\<close>; line 346 sorts them and removes neither, so the name occurs twice in the
  variable list.
\<close>

theorem variable_names_not_deduplicated:
  "parse_variables sample_sympy positive_x_text =
     Inr (Add (Sym (Symbol ''x'' True)) (plain ''x''), [Symbol ''x'' True, Symbol ''x'' False])
   \<and> map (symbol_name sample_sympy) [Symbol ''x'' True, Symbol ''x'' False] = [''x'', ''x'']
   \<and> \<not> distinct [''x'', ''x'']"
  by (simp add: parse_variables_def sample_sympy_def sample_sympify_def positive_x_text_def
      sample_free_symbols_def plain_def variables_of_def)

subsection \<open>What the Complex Function branch reports as a parsing error\<close>







subsection \<open>Expressions without variables\<close>

text \<open>
  Claim C10, as the code has it. When the parsed expression has no free symbols the branch
  calls \<open>st.columns(0)\<close>. If that call raises, the exception is caught by the handler of line
  438 and shown as a parsing error; if it did not raise, the guard \<open>and variables\<close> of line
  381 would skip the calculation. Either way no result is shown, the store is unchanged,
  and no exception leaves the branch.
\<close>

theorem variable_free_expression_outcome:
  assumes "sympify lib expression = Inr expr" "free_symbols lib expr = Inr []"
  shows "complex_function rnd lib st_columns number_input button expression s =
           (s\<lparr>error_formula := expression\<rparr>,
            Inr (case st_columns 0 of Some e \<Rightarrow> ParsingError e | None \<Rightarrow> InputsOnly))"
  using assms
  by (simp add: complex_function_def complex_function_body_def parse_variables_def
      variables_of_def split: option.splits)

theorem variable_free_expression_outcome_witness:
  "sympify sample_sympy ''a-a'' = Inr (Num 0) \<and> free_symbols sample_sympy (Num 0) = Inr []
   \<and> complex_function (\<lambda>x. x) sample_sympy streamlit_columns (entered []) False ''a-a''
       initial_session =
       (initial_session\<lparr>error_formula := ''a-a''\<rparr>, Inr (ParsingError StreamlitAPIException))"
proof -
  have h: "sympify sample_sympy ''a-a'' = Inr (Num 0)"
    "free_symbols sample_sympy (Num 0) = Inr []"
    by (simp_all add: sample_sympy_def sample_sympify_def sample_free_symbols_def)
  from variable_free_expression_outcome[OF h, of "\<lambda>x. x" streamlit_columns "entered []" False
      initial_session]
  have "complex_function (\<lambda>x. x) sample_sympy streamlit_columns (entered []) False ''a-a''
       initial_session =
       (initial_session\<lparr>error_formula := ''a-a''\<rparr>, Inr (ParsingError StreamlitAPIException))"
    by (simp add: streamlit_columns_def)
  with h show ?thesis by simp
qed

text \<open>
  Claim C10 as stated fails: on \<open>a-a\<close> with the button pressed, the exception of
  \<open>st.columns(0)\<close> does not leave the branch (the outcome is \<open>Inr\<close>, not \<open>Inl\<close>); it is shown
  as the message "Error parsing expression".
\<close>

theorem variable_free_expression_is_caught:
  "complex_function (\<lambda>x. x) sample_sympy streamlit_columns (entered []) True ''a-a''
     initial_session =
     (initial_session\<lparr>error_formula := ''a-a''\<rparr>, Inr (ParsingError StreamlitAPIException))"
  by (simp add: complex_function_def complex_function_body_def parse_variables_def
      sample_sympy_def sample_sympify_def sample_free_symbols_def streamlit_columns_def
      initial_session_def session_with_def variables_of_def reconcile_def fresh_store_def)

subsection \<open>Exact float arithmetic\<close>

lemma to_range_eq_Fin: "to_range r = Fin z \<longleftrightarrow> z = r \<and> \<bar>r\<bar> \<le> float_max"
  by (auto simp: to_range_def)

lemma float_max_pos: "0 < float_max"
  by (simp add: float_max_def)

lemma fadd_Fin:
  "fadd (\<lambda>x. x) x y = Fin z \<Longrightarrow> \<exists>u v. x = Fin u \<and> y = Fin v \<and> z = u + v"
  by (cases x; cases y) (auto simp: to_range_eq_Fin)

lemma fmul_Fin:
  "fmul (\<lambda>x. x) x y = Fin z \<Longrightarrow> \<exists>u v. x = Fin u \<and> y = Fin v \<and> z = u * v"
  by (cases x; cases y) (auto simp: to_range_eq_Fin signed_inf_def split: if_splits)

lemma math_sqrt_Fin:
  "math_sqrt (\<lambda>x. x) x = Inr (Fin z) \<Longrightarrow> \<exists>u. x = Fin u \<and> 0 \<le> u \<and> z = sqrt u"
  by (cases x) (auto split: if_splits)

lemma float_square_Inr:
  "float_square (\<lambda>x. x) (Fin u) = Inr y \<Longrightarrow> y = Fin (u\<^sup>2)"
  by (auto split: if_splits)

lemma sqrt_sum_squares_Fin:
  assumes "sqrt_sum_squares (\<lambda>x. x) (Fin u) (Fin v) = Inr (Fin t)"
  shows "t = sqrt (u\<^sup>2 + v\<^sup>2)"
proof -
  from assms obtain x2 y2 where
    x: "float_square (\<lambda>x. x) (Fin u) = Inr x2" and
    y: "float_square (\<lambda>x. x) (Fin v) = Inr y2" and
    s: "math_sqrt (\<lambda>x. x) (fadd (\<lambda>x. x) x2 y2) = Inr (Fin t)"
    unfolding sqrt_sum_squares_def by (auto simp: and_then_Inr)
  from float_square_Inr[OF x] float_square_Inr[OF y] s show ?thesis
    by (auto simp: to_range_def split: if_splits)
qed

lemma sqrt_sum_squares_exact:
  "sqrt_sum_squares (\<lambda>x. x) (Fin u) (Fin v) =
     (if float_max < u\<^sup>2 \<or> float_max < v\<^sup>2 then Inl OverflowError
      else if float_max < u\<^sup>2 + v\<^sup>2 then Inr PInf
      else Inr (Fin (sqrt (u\<^sup>2 + v\<^sup>2))))"
proof -
  have "\<not> u\<^sup>2 + v\<^sup>2 < - float_max" "\<not> u\<^sup>2 + v\<^sup>2 < 0"
    using float_max_pos by (smt (verit) zero_le_power2)+
  then show ?thesis
    by (simp add: sqrt_sum_squares_def to_range_def)
qed

lemma relative_propagation_Fin:
  assumes "relative_propagation (\<lambda>x. x) (Fin r) a ua b ub = Inr (Fin p)" "a \<noteq> 0" "b \<noteq> 0"
  shows "p = \<bar>r\<bar> * sqrt ((ua / \<bar>a\<bar>)\<^sup>2 + (ub / \<bar>b\<bar>)\<^sup>2)"
proof -
  from assms obtain t where
    s: "sqrt_sum_squares (\<lambda>x. x) (to_range (ua / \<bar>a\<bar>)) (to_range (ub / \<bar>b\<bar>)) = Inr t" and
    m: "fmul (\<lambda>x. x) (Fin \<bar>r\<bar>) t = Fin p"
    unfolding relative_propagation_def by (auto simp: and_then_Inr)
  from fmul_Fin[OF m] obtain v where t: "t = Fin v" and p: "p = \<bar>r\<bar> * v"
    by auto
  have fin: "\<exists>x y. to_range (ua / \<bar>a\<bar>) = Fin x \<and> to_range (ub / \<bar>b\<bar>) = Fin y"
  proof -
    from s[unfolded t sqrt_sum_squares_def] obtain x2 y2 where
      x: "float_square (\<lambda>x. x) (to_range (ua / \<bar>a\<bar>)) = Inr x2" and
      y: "float_square (\<lambda>x. x) (to_range (ub / \<bar>b\<bar>)) = Inr y2" and
      q: "math_sqrt (\<lambda>x. x) (fadd (\<lambda>x. x) x2 y2) = Inr (Fin v)"
      by (auto simp: and_then_Inr)
    from math_sqrt_Fin[OF q] obtain w where "fadd (\<lambda>x. x) x2 y2 = Fin w" by blast
    from fadd_Fin[OF this] obtain c d where cd: "x2 = Fin c" "y2 = Fin d" by blast
    from x y cd show ?thesis
      by (cases "to_range (ua / \<bar>a\<bar>)"; cases "to_range (ub / \<bar>b\<bar>)") auto
  qed
  then obtain x y where xy: "to_range (ua / \<bar>a\<bar>) = Fin x" "to_range (ub / \<bar>b\<bar>) = Fin y"
    by blast
  then have "x = ua / \<bar>a\<bar>" "y = ub / \<bar>b\<bar>"
    by (simp_all add: to_range_eq_Fin)
  with sqrt_sum_squares_Fin[OF s[unfolded xy t]] p show ?thesis
    by simp
qed

subsection \<open>Two variables\<close>

lemma second_operand_neq [simp]:
  "second_operand operation \<noteq> ''A''" "''A'' \<noteq> second_operand operation"
  by (cases operation; simp)+


lemma two_variables:
  assumes names: "map (symbol_name lib) vars = [''A'', w]" and w: "w \<noteq> ''A''"
    and eo: "exact_on lib R expr [(''A'', a), (w, b)] f
               [(''A'', \<lparr>b_value = a, b_uncertainty = ua\<rparr>),
                (w, \<lparr>b_value = b, b_uncertainty = ub\<rparr>)] vars Ds"
  shows "\<exists>DA DB.
      squares_total (symbol_name lib)
        [(''A'', \<lparr>b_value = a, b_uncertainty = ua\<rparr>), (w, \<lparr>b_value = b, b_uncertainty = ub\<rparr>)]
        vars Ds = (DA * ua)\<^sup>2 + (DB * ub)\<^sup>2
    \<and> (ua \<noteq> 0 \<longrightarrow> ((\<lambda>t. f ((\<lambda>v. 0)(''A'' := t, w := b))) has_real_derivative DA) (at a))
    \<and> (ub \<noteq> 0 \<longrightarrow> ((\<lambda>t. f ((\<lambda>v. 0)(''A'' := a, w := t))) has_real_derivative DB) (at b))"
proof -
  from names obtain vA vB where vars: "vars = [vA, vB]"
    and n: "symbol_name lib vA = ''A''" "symbol_name lib vB = w"
    by auto
  from eo have "list_all2 (exact_term lib R expr [(''A'', a), (w, b)] f
               [(''A'', \<lparr>b_value = a, b_uncertainty = ua\<rparr>),
                (w, \<lparr>b_value = b, b_uncertainty = ub\<rparr>)]) vars Ds"
    unfolding exact_on_def by blast
  then obtain DA DB where Ds: "Ds = [DA, DB]" and
    tA: "exact_term lib R expr [(''A'', a), (w, b)] f
               [(''A'', \<lparr>b_value = a, b_uncertainty = ua\<rparr>),
                (w, \<lparr>b_value = b, b_uncertainty = ub\<rparr>)] vA DA" and
    tB: "exact_term lib R expr [(''A'', a), (w, b)] f
               [(''A'', \<lparr>b_value = a, b_uncertainty = ua\<rparr>),
                (w, \<lparr>b_value = b, b_uncertainty = ub\<rparr>)] vB DB"
    unfolding vars by (auto simp: list_all2_Cons1)
  have env: "env_of [(''A'', a), (w, b)] = (\<lambda>v. 0)(''A'' := a, w := b)"
    using w by (auto simp: env_of_def fun_eq_iff)
  have swap: "\<And>t. ((\<lambda>v. 0::real)(''A'' := a, w := b, ''A'' := t)) = (\<lambda>v. 0)(''A'' := t, w := b)"
    using w by (auto simp: fun_eq_iff)
  have 1: "squares_total (symbol_name lib)
        [(''A'', \<lparr>b_value = a, b_uncertainty = ua\<rparr>), (w, \<lparr>b_value = b, b_uncertainty = ub\<rparr>)]
        vars Ds = (DA * ua)\<^sup>2 + (DB * ub)\<^sup>2"
    using w by (simp add: vars Ds n uncertainty_of_def)
  from tA have 2: "ua \<noteq> 0 \<longrightarrow>
      ((\<lambda>t. f ((\<lambda>v. 0)(''A'' := t, w := b))) has_real_derivative DA) (at a)"
    using w by (simp add: exact_term_def n uncertainty_of_def env swap)
  from tB have 3: "ub \<noteq> 0 \<longrightarrow>
      ((\<lambda>t. f ((\<lambda>v. 0)(''A'' := a, w := t))) has_real_derivative DB) (at b)"
    using w by (simp add: exact_term_def n uncertainty_of_def env)
  from 1 2 3 show ?thesis by blast
qed

lemma build_two:
  assumes "map (symbol_name lib) vars = [''A'', w]" "w \<noteq> ''A''"
  shows "build_subs_dict
           [(''A'', \<lparr>b_value = a, b_uncertainty = ua\<rparr>), (w, \<lparr>b_value = b, b_uncertainty = ub\<rparr>)]
           (map (symbol_name lib) vars) [] = Inr [(''A'', a), (w, b)]"
  using assms by simp

lemma env_two:
  "w \<noteq> ''A'' \<Longrightarrow> env_of [(''A'', a), (w, b)] = (\<lambda>v. 0)(''A'' := a, w := b)"
  by (auto simp: env_of_def fun_eq_iff)

lemma term_square:
  assumes "u \<noteq> 0 \<longrightarrow> (g has_real_derivative D) (at x)"
    and "u \<noteq> 0 \<longrightarrow> (g has_real_derivative D') (at x)"
  shows "(D * u)\<^sup>2 = (D' * u)\<^sup>2"
proof (cases "u = 0")
  case True
  then show ?thesis by simp
next
  case False
  with assms have "D = D'" by (blast intro: DERIV_unique)
  then show ?thesis by simp
qed

subsection \<open>Addition and subtraction\<close>






subsection \<open>The basic rows and the general law\<close>

lemma mul_rss:
  fixes a b ua ub :: real
  assumes "a \<noteq> 0" "b \<noteq> 0"
  shows "\<bar>a * b\<bar> * sqrt ((ua / \<bar>a\<bar>)\<^sup>2 + (ub / \<bar>b\<bar>)\<^sup>2) = sqrt ((b * ua)\<^sup>2 + (a * ub)\<^sup>2)"
proof -
  have "\<bar>a * b\<bar> * sqrt ((ua / \<bar>a\<bar>)\<^sup>2 + (ub / \<bar>b\<bar>)\<^sup>2)
      = sqrt ((a * b)\<^sup>2) * sqrt ((ua / \<bar>a\<bar>)\<^sup>2 + (ub / \<bar>b\<bar>)\<^sup>2)"
    by simp
  also have "\<dots> = sqrt ((a * b)\<^sup>2 * ((ua / \<bar>a\<bar>)\<^sup>2 + (ub / \<bar>b\<bar>)\<^sup>2))"
    by (simp only: real_sqrt_mult)
  also have "(a * b)\<^sup>2 * ((ua / \<bar>a\<bar>)\<^sup>2 + (ub / \<bar>b\<bar>)\<^sup>2) = (b * ua)\<^sup>2 + (a * ub)\<^sup>2"
    using assms by (simp add: power2_eq_square field_simps)
  finally show ?thesis .
qed

lemma div_rss:
  fixes a b ua ub :: real
  assumes "a \<noteq> 0" "b \<noteq> 0"
  shows "\<bar>a / b\<bar> * sqrt ((ua / \<bar>a\<bar>)\<^sup>2 + (ub / \<bar>b\<bar>)\<^sup>2)
       = sqrt ((1 / b * ua)\<^sup>2 + (- a / b\<^sup>2 * ub)\<^sup>2)"
proof -
  have "\<bar>a / b\<bar> * sqrt ((ua / \<bar>a\<bar>)\<^sup>2 + (ub / \<bar>b\<bar>)\<^sup>2)
      = sqrt ((a / b)\<^sup>2) * sqrt ((ua / \<bar>a\<bar>)\<^sup>2 + (ub / \<bar>b\<bar>)\<^sup>2)"
    by simp
  also have "\<dots> = sqrt ((a / b)\<^sup>2 * ((ua / \<bar>a\<bar>)\<^sup>2 + (ub / \<bar>b\<bar>)\<^sup>2))"
    by (simp only: real_sqrt_mult)
  also have "(a / b)\<^sup>2 * ((ua / \<bar>a\<bar>)\<^sup>2 + (ub / \<bar>b\<bar>)\<^sup>2) = (1 / b * ua)\<^sup>2 + (- a / b\<^sup>2 * ub)\<^sup>2"
    using assms by (simp add: power2_eq_square field_simps)
  finally show ?thesis .
qed

lemma pow_pos_rss:
  fixes a n ua :: real
  assumes "0 < a" "0 \<le> ua"
  shows "(\<bar>a powr n\<bar> * (\<bar>n\<bar> * (ua / \<bar>a\<bar>)))\<^sup>2 = (n * a powr (n - 1) * ua)\<^sup>2"
proof -
  have "a powr (n - 1) = a powr n / a"
    using assms(1) by (simp add: powr_diff)
  then have "\<bar>n * a powr (n - 1) * ua\<bar> = \<bar>a powr n\<bar> * (\<bar>n\<bar> * (ua / \<bar>a\<bar>))"
    using assms by (simp add: abs_mult)
  then show ?thesis
    by (metis power2_abs)
qed

lemma pow_neg_rss:
  fixes a ua :: real
  assumes "a < 0" "0 \<le> ua"
  shows "(\<bar>a powi k\<bar> * (\<bar>of_int k\<bar> * (ua / \<bar>a\<bar>)))\<^sup>2 = (of_int k * a powi (k - 1) * ua)\<^sup>2"
proof -
  have "a powi (k - 1) = a powi k / a"
    using assms(1) by (simp add: power_int_diff)
  then have "\<bar>of_int k * a powi (k - 1) * ua\<bar> = \<bar>a powi k\<bar> * (\<bar>of_int k\<bar> * (ua / \<bar>a\<bar>))"
    using assms by (simp add: abs_mult)
  then show ?thesis
    by (metis power2_abs)
qed

lemma real_power_deriv_pos:
  assumes "0 < a"
  shows "((\<lambda>t. real_power t n) has_real_derivative n * a powr (n - 1)) (at a)"
proof (rule has_field_derivative_transform_within_open[where S = "{0<..}"])
  show "((\<lambda>t. t powr n) has_real_derivative n * a powr (n - 1)) (at a)"
    using assms by (auto intro!: derivative_eq_intros)
  show "open {0::real<..}" by simp
  show "a \<in> {0<..}" using assms by simp
  show "\<And>x. x \<in> {0<..} \<Longrightarrow> x powr n = real_power x n"
    by (simp add: real_power_def)
qed

lemma real_power_deriv_neg:
  assumes "a < 0"
  shows "((\<lambda>t. real_power t n) has_real_derivative of_int \<lfloor>n\<rfloor> * a powi (\<lfloor>n\<rfloor> - 1)) (at a)"
proof (rule has_field_derivative_transform_within_open[where S = "{..<0}"])
  show "((\<lambda>t. t powi \<lfloor>n\<rfloor>) has_real_derivative of_int \<lfloor>n\<rfloor> * a powi (\<lfloor>n\<rfloor> - 1)) (at a)"
    using assms by (auto intro!: derivative_eq_intros)
  show "open {..<0::real}" by simp
  show "a \<in> {..<0}" using assms by simp
  show "\<And>x. x \<in> {..<0} \<Longrightarrow> x powi \<lfloor>n\<rfloor> = real_power x n"
    by (simp add: real_power_def)
qed

lemma in_float_range_Inr:
  "in_float_range x = Inr (PyFloat (Fin r)) \<longleftrightarrow> r = x \<and> \<bar>x\<bar> \<le> float_max"
  by (auto simp: in_float_range_def)

lemma in_float_range_cases:
  "in_float_range x = Inr y \<Longrightarrow> y = PyFloat (Fin x) \<and> \<bar>x\<bar> \<le> float_max"
  by (auto simp: in_float_range_def split: if_splits)

text \<open>What a row of the basic calculator has computed, in exact arithmetic, when it
  returns a finite float result \<open>r\<close> and a finite propagated uncertainty \<open>p\<close>.\<close>

lemma additive_row_value:
  assumes basic: "basic_operations (\<lambda>x. x) operation a ua b ub n
                    = Inr (Some (PyFloat (Fin r)), Some (Fin p))"
    and op: "operation = Addition \<or> operation = Subtraction"
  shows "r = (if operation = Addition then a + b else a - b)" "\<bar>r\<bar> \<le> float_max"
    "p = sqrt (ua\<^sup>2 + ub\<^sup>2)"
proof -
  from basic op have s: "sqrt_sum_squares (\<lambda>x. x) (Fin ua) (Fin ub) = Inr (Fin p)"
    and r: "to_range (if operation = Addition then a + b else a - b) = Fin r"
    by (auto simp: basic_operations_def and_then_Inr fsub_def)
  from r show "r = (if operation = Addition then a + b else a - b)" "\<bar>r\<bar> \<le> float_max"
    by (simp_all add: to_range_eq_Fin)
  from sqrt_sum_squares_Fin[OF s] show "p = sqrt (ua\<^sup>2 + ub\<^sup>2)" .
qed

lemma multiplication_row_value:
  assumes basic: "basic_operations (\<lambda>x. x) Multiplication a ua b ub n
                    = Inr (Some (PyFloat (Fin r)), Some (Fin p))"
  shows "a \<noteq> 0" "b \<noteq> 0" "r = a * b" "\<bar>r\<bar> \<le> float_max"
    "p = sqrt ((b * ua)\<^sup>2 + (a * ub)\<^sup>2)"
proof -
  from basic show nz: "a \<noteq> 0" "b \<noteq> 0"
    by (auto simp: basic_operations_def Let_def split: if_splits)
  from basic nz have r: "to_range (a * b) = Fin r"
    and p: "relative_propagation (\<lambda>x. x) (Fin r) a ua b ub = Inr (Fin p)"
    by (auto simp: basic_operations_def and_then_Inr Let_def)
  from r show r': "r = a * b" "\<bar>r\<bar> \<le> float_max"
    by (simp_all add: to_range_eq_Fin)
  from relative_propagation_Fin[OF p nz] show "p = sqrt ((b * ua)\<^sup>2 + (a * ub)\<^sup>2)"
    unfolding r'(1) by (simp only: mul_rss[OF nz])
qed

lemma division_row_value:
  assumes basic: "basic_operations (\<lambda>x. x) Division a ua b ub n
                    = Inr (Some (PyFloat (Fin r)), Some (Fin p))"
  shows "a \<noteq> 0" "b \<noteq> 0" "r = a / b" "\<bar>r\<bar> \<le> float_max"
    "p = sqrt ((1 / b * ua)\<^sup>2 + (- a / b\<^sup>2 * ub)\<^sup>2)"
proof -
  from basic show nz: "a \<noteq> 0" "b \<noteq> 0"
    by (auto simp: basic_operations_def and_then_Inr split: if_splits)
  from basic nz have r: "to_range (a / b) = Fin r"
    and p: "relative_propagation (\<lambda>x. x) (Fin r) a ua b ub = Inr (Fin p)"
    by (auto simp: basic_operations_def and_then_Inr)
  from r show r': "r = a / b" "\<bar>r\<bar> \<le> float_max"
    by (simp_all add: to_range_eq_Fin)
  from relative_propagation_Fin[OF p nz] show
    "p = sqrt ((1 / b * ua)\<^sup>2 + (- a / b\<^sup>2 * ub)\<^sup>2)"
    unfolding r'(1) by (simp only: div_rss[OF nz])
qed

lemma power_row_value:
  assumes basic: "basic_operations (\<lambda>x. x) Power a ua b ub n
                    = Inr (Some (PyFloat (Fin r)), Some (Fin p))"
  shows "a \<noteq> 0" "r = real_power a n" "\<bar>r\<bar> \<le> float_max"
    "p = \<bar>r\<bar> * (\<bar>n\<bar> * (ua / \<bar>a\<bar>))" "a < 0 \<Longrightarrow> n = of_int \<lfloor>n\<rfloor>"
proof -
  from basic obtain res where
    res: "float_pow (\<lambda>x. x) a n = Inr res" and
    rest: "(if a \<noteq> 0 then
              and_then (fdiv (\<lambda>x. x) (Fin ua) (fabs (Fin a))) (\<lambda>rel_error_a.
                Inr (Some res, Some (fmul (\<lambda>x. x) (py_abs (\<lambda>x. x) res)
                                   (fmul (\<lambda>x. x) (fabs (Fin n)) rel_error_a))))
            else Inr (Some res, None)) = Inr (Some (PyFloat (Fin r)), Some (Fin p))"
    unfolding basic_operations_def Let_def by (auto simp: and_then_Inr)
  from rest show nz: "a \<noteq> 0"
    by (auto split: if_splits)
  from rest nz have res': "res = PyFloat (Fin r)"
    and m: "fmul (\<lambda>x. x) (Fin \<bar>r\<bar>) (fmul (\<lambda>x. x) (Fin \<bar>n\<bar>) (to_range (ua / \<bar>a\<bar>))) = Fin p"
    by (auto simp: and_then_Inr)
  from fmul_Fin[OF m] obtain v where
    v: "fmul (\<lambda>x. x) (Fin \<bar>n\<bar>) (to_range (ua / \<bar>a\<bar>)) = Fin v" and p: "p = \<bar>r\<bar> * v"
    by auto
  from fmul_Fin[OF v] obtain w where w: "to_range (ua / \<bar>a\<bar>) = Fin w" and v': "v = \<bar>n\<bar> * w"
    by auto
  from w have "w = ua / \<bar>a\<bar>" by (simp add: to_range_eq_Fin)
  with p v' show "p = \<bar>r\<bar> * (\<bar>n\<bar> * (ua / \<bar>a\<bar>))" by simp
  from res[unfolded res'] nz show "r = real_power a n" "\<bar>r\<bar> \<le> float_max"
    by (auto simp: float_pow_def real_power_def in_float_range_Inr split: if_splits)
  from res[unfolded res'] nz show "n = of_int \<lfloor>n\<rfloor>" if "a < 0"
    using that by (auto simp: float_pow_def split: if_splits)
qed

lemma row_squares:
  assumes basic: "basic_operations (\<lambda>x. x) operation a ua b ub b
                    = Inr (Some (PyFloat (Fin r)), Some (Fin p))"
    and ua: "0 \<le> ua" and ub: "0 \<le> ub" and pow: "operation = Power \<Longrightarrow> ub = 0"
    and A: "ua \<noteq> 0 \<longrightarrow>
              ((\<lambda>t. operation_function operation
                      ((\<lambda>v. 0)(''A'' := t, second_operand operation := b)))
                 has_real_derivative DA) (at a)"
    and B: "ub \<noteq> 0 \<longrightarrow>
              ((\<lambda>t. operation_function operation
                      ((\<lambda>v. 0)(''A'' := a, second_operand operation := t)))
                 has_real_derivative DB) (at b)"
  shows "r = operation_function operation ((\<lambda>v. 0)(''A'' := a, second_operand operation := b))"
    and "\<bar>r\<bar> \<le> float_max" and "0 \<le> p" and "(DA * ua)\<^sup>2 + (DB * ub)\<^sup>2 = p\<^sup>2"
proof -
  have "r = operation_function operation ((\<lambda>v. 0)(''A'' := a, second_operand operation := b))
      \<and> \<bar>r\<bar> \<le> float_max \<and> 0 \<le> p \<and> (DA * ua)\<^sup>2 + (DB * ub)\<^sup>2 = p\<^sup>2"
  proof (cases operation)
    case Addition
    note v = additive_row_value[OF basic disjI1[OF Addition]]
    have "((\<lambda>t. t + b) has_real_derivative 1) (at a)"
      by (auto intro!: derivative_eq_intros)
    with A have 1: "(DA * ua)\<^sup>2 = (1 * ua)\<^sup>2"
      unfolding Addition by (intro term_square) auto
    have "((\<lambda>t. a + t) has_real_derivative 1) (at b)"
      by (auto intro!: derivative_eq_intros)
    with B have 2: "(DB * ub)\<^sup>2 = (1 * ub)\<^sup>2"
      unfolding Addition by (intro term_square) auto
    from v 1 2 show ?thesis
      by (simp add: Addition)
  next
    case Subtraction
    note v = additive_row_value[OF basic disjI2[OF Subtraction]]
    have "((\<lambda>t. t - b) has_real_derivative 1) (at a)"
      by (auto intro!: derivative_eq_intros)
    with A have 1: "(DA * ua)\<^sup>2 = (1 * ua)\<^sup>2"
      unfolding Subtraction by (intro term_square) auto
    have "((\<lambda>t. a - t) has_real_derivative - 1) (at b)"
      by (auto intro!: derivative_eq_intros)
    with B have 2: "(DB * ub)\<^sup>2 = (- 1 * ub)\<^sup>2"
      unfolding Subtraction by (intro term_square) auto
    from v 1 2 show ?thesis
      by (simp add: Subtraction)
  next
    case Multiplication
    note v = multiplication_row_value[OF basic[unfolded Multiplication]]
    have "((\<lambda>t. t * b) has_real_derivative b) (at a)"
      by (auto intro!: derivative_eq_intros)
    with A have 1: "(DA * ua)\<^sup>2 = (b * ua)\<^sup>2"
      unfolding Multiplication by (intro term_square) auto
    have "((\<lambda>t. a * t) has_real_derivative a) (at b)"
      by (auto intro!: derivative_eq_intros)
    with B have 2: "(DB * ub)\<^sup>2 = (a * ub)\<^sup>2"
      unfolding Multiplication by (intro term_square) auto
    from v 1 2 show ?thesis
      by (simp add: Multiplication)
  next
    case Division
    note v = division_row_value[OF basic[unfolded Division]]
    have "((\<lambda>t. t / b) has_real_derivative 1 / b) (at a)"
      using v(2) by (auto intro!: derivative_eq_intros)
    with A have 1: "(DA * ua)\<^sup>2 = (1 / b * ua)\<^sup>2"
      unfolding Division by (intro term_square) auto
    have "((\<lambda>t. a / t) has_real_derivative - a / b\<^sup>2) (at b)"
      using v(2) by (auto intro!: derivative_eq_intros simp: power2_eq_square)
    with B have 2: "(DB * ub)\<^sup>2 = (- a / b\<^sup>2 * ub)\<^sup>2"
      unfolding Division by (intro term_square) auto
    have "0 \<le> (1 / b * ua)\<^sup>2 + (- a / b\<^sup>2 * ub)\<^sup>2"
      by simp
    with v(3,4,5) 1 2 show ?thesis
      by (simp add: Division del: times_divide_eq_left)
  next
    case Power
    note v = power_row_value[OF basic[unfolded Power]]
    from pow Power have ub0: "ub = 0" by simp
    have p0: "0 \<le> p"
      unfolding v(4) using ua by simp
    have "(DA * ua)\<^sup>2 = p\<^sup>2"
    proof (cases "0 < a")
      case True
      have "((\<lambda>t. real_power t b) has_real_derivative b * a powr (b - 1)) (at a)"
        by (rule real_power_deriv_pos[OF True])
      with A have "(DA * ua)\<^sup>2 = (b * a powr (b - 1) * ua)\<^sup>2"
        unfolding Power by (intro term_square) auto
      also have "\<dots> = p\<^sup>2"
        unfolding v(4) v(2) using True pow_pos_rss[OF True ua, of b]
        by (simp add: real_power_def)
      finally show ?thesis .
    next
      case False
      with v(1) have neg: "a < 0" by simp
      from v(5)[OF neg] have bi: "b = of_int \<lfloor>b\<rfloor>" .
      have "((\<lambda>t. real_power t b) has_real_derivative of_int \<lfloor>b\<rfloor> * a powi (\<lfloor>b\<rfloor> - 1)) (at a)"
        by (rule real_power_deriv_neg[OF neg])
      with A have "(DA * ua)\<^sup>2 = (of_int \<lfloor>b\<rfloor> * a powi (\<lfloor>b\<rfloor> - 1) * ua)\<^sup>2"
        unfolding Power by (intro term_square) auto
      also have "\<dots> = (\<bar>a powi \<lfloor>b\<rfloor>\<bar> * (\<bar>of_int \<lfloor>b\<rfloor>\<bar> * (ua / \<bar>a\<bar>)))\<^sup>2"
        by (rule pow_neg_rss[OF neg ua, symmetric])
      also have "\<dots> = p\<^sup>2"
        unfolding v(4) v(2) using neg bi by (simp add: real_power_def)
      finally show ?thesis .
    qed
    with v(2,3) p0 show ?thesis
      by (simp add: Power ub0)
  qed
  then show "r = operation_function operation ((\<lambda>v. 0)(''A'' := a, second_operand operation := b))"
    and "\<bar>r\<bar> \<le> float_max" and "0 \<le> p" and "(DA * ua)\<^sup>2 + (DB * ub)\<^sup>2 = p\<^sup>2"
    by blast+
qed

text \<open>
  Claim C5, as the code has it. Take a row of the basic calculator that, in exact
  arithmetic, returns a finite float result \<open>r\<close> and a finite propagated uncertainty \<open>p\<close>
  whose square is in the float range, for non-negative uncertainties (the exponent of the
  power row has none). Let the library be exact on the two-variable expression of the
  operation (\<open>A+B\<close>, \<open>A-B\<close>, \<open>A*B\<close>, \<open>A/B\<close>, \<open>A^n\<close>) at these operands. Then the calculation of
  the Complex Function branch shows a result with the same value \<open>r\<close> and the same
  propagated uncertainty \<open>p\<close>, which it also writes to the session state. This covers a
  positive base of the power with any exponent and a negative base with an integral
  exponent.
\<close>

theorem basic_rows_agree_with_general_law:
  assumes basic: "basic_operations (\<lambda>x. x) operation a ua b ub b
                    = Inr (Some (PyFloat (Fin r)), Some (Fin p))"
    and ua: "0 \<le> ua" and ub: "0 \<le> ub" and pow: "operation = Power \<Longrightarrow> ub = 0"
    and range: "p\<^sup>2 \<le> float_max"
    and names: "map (symbol_name lib) variables = [''A'', second_operand operation]"
    and ev: "exact_values lib R"
    and eo: "exact_on lib R expr [(''A'', a), (second_operand operation, b)]
               (operation_function operation) (two_bindings operation a ua b ub) variables Ds"
    and s: "error_variables s = two_bindings operation a ua b ub"
  shows "\<exists>s' c. calculate (\<lambda>x. x) lib expr variables s = (s', Inr c)
           \<and> result c = Fin r \<and> propagated_error c = Fin p
           \<and> session_propagated_error s' = Some (Fin p)"
proof -
  let ?w = "second_operand operation"
  have w: "?w \<noteq> ''A''" by simp
  from two_variables[OF names w eo[unfolded two_bindings_def]] obtain DA DB where
    S: "squares_total (symbol_name lib) (two_bindings operation a ua b ub) variables Ds
          = (DA * ua)\<^sup>2 + (DB * ub)\<^sup>2" and
    A: "ua \<noteq> 0 \<longrightarrow>
          ((\<lambda>t. operation_function operation ((\<lambda>v. 0)(''A'' := t, ?w := b)))
             has_real_derivative DA) (at a)" and
    B: "ub \<noteq> 0 \<longrightarrow>
          ((\<lambda>t. operation_function operation ((\<lambda>v. 0)(''A'' := a, ?w := t)))
             has_real_derivative DB) (at b)"
    by (auto simp: two_bindings_def)
  note v = row_squares[OF basic ua ub pow A B]
  have sd: "build_subs_dict (error_variables s) (map (symbol_name lib) variables) []
              = Inr [(''A'', a), (?w, b)]"
    unfolding s two_bindings_def by (rule build_two[OF names w])
  have eo': "exact_on lib R expr [(''A'', a), (?w, b)] (operation_function operation)
               (error_variables s) variables Ds"
    using eo s by simp
  have S': "squares_total (symbol_name lib) (error_variables s) variables Ds = p\<^sup>2"
    using S v(4) s by simp
  have r1: "squares_total (symbol_name lib) (error_variables s) variables Ds \<le> float_max"
    using S' range by simp
  have env: "env_of [(''A'', a), (?w, b)] = (\<lambda>v. 0)(''A'' := a, ?w := b)"
    by (rule env_two[OF w])
  have r: "operation_function operation (env_of [(''A'', a), (?w, b)]) = r"
    unfolding env by (rule v(1)[symmetric])
  have r2: "\<bar>operation_function operation (env_of [(''A'', a), (?w, b)])\<bar> \<le> float_max"
    unfolding r by (rule v(2))
  have sq: "sqrt (p\<^sup>2) = p"
    using v(3) by simp
  note c = calculate_exact[OF sd ev eo' r1 r2, of "\<lambda>x. x", unfolded S' sq r Let_def]
  show ?thesis
    unfolding c by simp
qed

lemma sqrt_144: "sqrt (1/144) = 1/12"
  by (rule real_sqrt_unique) (simp_all add: power2_eq_square)

lemma exact_mul:
  "exact_on sample_sympy sample_denotes (Mul (plain ''A'') (plain ''B''))
     [(''A'', 2), (second_operand Multiplication, 3)] (operation_function Multiplication)
     (two_bindings Multiplication 2 (1/10) 3 (2/10))
     [Symbol ''A'' False, Symbol ''B'' False] [3, 2]"
  by (auto simp: exact_on_def exact_term_def sample_sympy_def sample_denotes_def plain_def
      env_of_def uncertainty_of_def two_bindings_def intro!: derivative_eq_intros)

lemma basic_mul_example:
  "basic_operations (\<lambda>x. x) Multiplication 2 (1/10) 3 (2/10) 3
     = Inr (Some (PyFloat (Fin 6)), Some (Fin (1/2)))"
  by (simp add: basic_operations_def relative_propagation_def sqrt_sum_squares_exact
      to_range_Fin power2_eq_square sqrt_144 float_max_def)

lemma basic_pow_example:
  "basic_operations (\<lambda>x. x) Power (- 2) (1/2) 3 0 3
     = Inr (Some (PyFloat (Fin (- 8))), Some (Fin 6))"
  by (simp add: basic_operations_def float_pow_def in_float_range_def to_range_Fin
      float_max_def)

lemma exact_pow:
  "exact_on sample_sympy sample_denotes (Pwr (plain ''A'') (plain ''n''))
     [(''A'', - 2), (second_operand Power, 3)] (operation_function Power)
     (two_bindings Power (- 2) (1/2) 3 0)
     [Symbol ''A'' False, Symbol ''n'' False] [12, 0]"
proof -
  have d: "((\<lambda>t. real_power t 3) has_real_derivative 12) (at (- 2))"
    using real_power_deriv_neg[of "- 2" 3] by simp
  have e: "env_of [(''A'', - 2), (''n'', 3)] = (\<lambda>v. 0)(''A'' := - 2, ''n'' := 3)"
    by (rule env_two) simp
  have f: "\<And>t. ((\<lambda>v. 0::real)(''A'' := - 2, ''n'' := 3, ''A'' := t)) = (\<lambda>v. 0)(''A'' := t, ''n'' := 3)"
    by (auto simp: fun_eq_iff)
  have g: "\<lfloor>- 1::real\<rfloor> = - 1" "\<lfloor>3::real\<rfloor> = 3"
    by (rule floor_unique; simp)+
  have h: "(- 2::real) powi - 1 = - (1/2)" "(- 2::real) powi 3 = - 8"
    by (simp_all add: power_int_minus)
  show ?thesis
    using d
    by (simp add: exact_on_def exact_term_def sample_sympy_def sample_denotes_def plain_def
        e f g h uncertainty_of_def two_bindings_def real_pow_value_def real_power_def
        mk_complex_def)
qed

theorem basic_rows_agree_with_general_law_witness:
  "basic_operations (\<lambda>x. x) Multiplication 2 (1/10) 3 (2/10) 3
     = Inr (Some (PyFloat (Fin 6)), Some (Fin (1/2)))
   \<and> exact_on sample_sympy sample_denotes (Mul (plain ''A'') (plain ''B''))
       [(''A'', 2), (second_operand Multiplication, 3)] (operation_function Multiplication)
       (two_bindings Multiplication 2 (1/10) 3 (2/10))
       [Symbol ''A'' False, Symbol ''B'' False] [3, 2]
   \<and> (\<exists>s' c. calculate (\<lambda>x. x) sample_sympy (Mul (plain ''A'') (plain ''B''))
                [Symbol ''A'' False, Symbol ''B'' False]
                (session_with (two_bindings Multiplication 2 (1/10) 3 (2/10))) = (s', Inr c)
           \<and> result c = Fin 6 \<and> propagated_error c = Fin (1/2)
           \<and> session_propagated_error s' = Some (Fin (1/2)))
   \<and> basic_operations (\<lambda>x. x) Power (- 2) (1/2) 3 0 3
       = Inr (Some (PyFloat (Fin (- 8))), Some (Fin 6))
   \<and> exact_on sample_sympy sample_denotes (Pwr (plain ''A'') (plain ''n''))
       [(''A'', - 2), (second_operand Power, 3)] (operation_function Power)
       (two_bindings Power (- 2) (1/2) 3 0)
       [Symbol ''A'' False, Symbol ''n'' False] [12, 0]
   \<and> (\<exists>s' c. calculate (\<lambda>x. x) sample_sympy (Pwr (plain ''A'') (plain ''n''))
                [Symbol ''A'' False, Symbol ''n'' False]
                (session_with (two_bindings Power (- 2) (1/2) 3 0)) = (s', Inr c)
           \<and> result c = Fin (- 8) \<and> propagated_error c = Fin 6
           \<and> session_propagated_error s' = Some (Fin 6))"
proof -
  have m: "\<exists>s' c. calculate (\<lambda>x. x) sample_sympy (Mul (plain ''A'') (plain ''B''))
                [Symbol ''A'' False, Symbol ''B'' False]
                (session_with (two_bindings Multiplication 2 (1/10) 3 (2/10))) = (s', Inr c)
           \<and> result c = Fin 6 \<and> propagated_error c = Fin (1/2)
           \<and> session_propagated_error s' = Some (Fin (1/2))"
    by (rule basic_rows_agree_with_general_law[OF basic_mul_example _ _ _ _ _
          sample_exact_values exact_mul])
       (simp_all add: sample_sympy_def session_with_def float_max_def power2_eq_square)
  have p: "\<exists>s' c. calculate (\<lambda>x. x) sample_sympy (Pwr (plain ''A'') (plain ''n''))
                [Symbol ''A'' False, Symbol ''n'' False]
                (session_with (two_bindings Power (- 2) (1/2) 3 0)) = (s', Inr c)
           \<and> result c = Fin (- 8) \<and> propagated_error c = Fin 6
           \<and> session_propagated_error s' = Some (Fin 6)"
    by (rule basic_rows_agree_with_general_law[OF basic_pow_example _ _ _ _ _
          sample_exact_values exact_pow])
       (simp_all add: sample_sympy_def session_with_def float_max_def power2_eq_square)
  show ?thesis
    by (intro conjI basic_mul_example exact_mul m basic_pow_example exact_pow p)
qed




end
